theory Spec2Isabelle
  imports Complex_Main
begin

section \<open>Relative Output Stability: a shallow embedding\<close>

text \<open>
  The development embeds \<^verbatim>\<open>quantus/metrics/robustness/relative_output_stability.py\<close>:
  the method \<^verbatim>\<open>relative_output_stability_objective\<close> and the method
  \<^verbatim>\<open>evaluate_batch\<close> of the class \<^verbatim>\<open>RelativeOutputStability\<close>.

  The source computes with NumPy arrays of IEEE doubles. The embedding keeps what the
  properties below depend on: the special values (\<open>NaN\<close> and the two infinities, with
  the arithmetic NumPy gives them, division by zero included), the shapes of the arrays,
  NumPy's broadcasting, and every place where NumPy or the source raises. Finite values
  are real numbers and finite arithmetic is exact: rounding, overflow, underflow and the
  sign of zero are not part of the model.
\<close>

subsection \<open>Floating-point values\<close>

datatype fl = Fin real | PInf | NInf | NaN

fun fl_neg :: "fl \<Rightarrow> fl" where
  "fl_neg (Fin a) = Fin (- a)"
| "fl_neg PInf = NInf"
| "fl_neg NInf = PInf"
| "fl_neg NaN = NaN"

fun fl_add :: "fl \<Rightarrow> fl \<Rightarrow> fl" where
  "fl_add (Fin a) (Fin b) = Fin (a + b)"
| "fl_add NaN y = NaN"
| "fl_add x NaN = NaN"
| "fl_add PInf NInf = NaN"
| "fl_add NInf PInf = NaN"
| "fl_add PInf y = PInf"
| "fl_add x PInf = PInf"
| "fl_add NInf y = NInf"
| "fl_add x NInf = NInf"

definition fl_sub :: "fl \<Rightarrow> fl \<Rightarrow> fl" where
  "fl_sub x y = fl_add x (fl_neg y)"

text \<open>The infinity with the sign of a real number; \<open>NaN\<close> for zero (\<open>0 * inf\<close>, \<open>0 / 0\<close>).\<close>

definition inf_of_sign :: "real \<Rightarrow> fl" where
  "inf_of_sign s = (if 0 < s then PInf else if s < 0 then NInf else NaN)"

fun fl_mul :: "fl \<Rightarrow> fl \<Rightarrow> fl" where
  "fl_mul (Fin a) (Fin b) = Fin (a * b)"
| "fl_mul NaN y = NaN"
| "fl_mul x NaN = NaN"
| "fl_mul PInf (Fin b) = inf_of_sign b"
| "fl_mul NInf (Fin b) = inf_of_sign (- b)"
| "fl_mul (Fin a) PInf = inf_of_sign a"
| "fl_mul (Fin a) NInf = inf_of_sign (- a)"
| "fl_mul PInf PInf = PInf"
| "fl_mul PInf NInf = NInf"
| "fl_mul NInf PInf = NInf"
| "fl_mul NInf NInf = PInf"

text \<open>
  NumPy's true division does not raise on a zero divisor: it warns and returns an
  infinity, or \<open>NaN\<close> for \<open>0 / 0\<close>.
\<close>

fun fl_div :: "fl \<Rightarrow> fl \<Rightarrow> fl" where
  "fl_div (Fin a) (Fin b) = (if b = 0 then inf_of_sign a else Fin (a / b))"
| "fl_div NaN y = NaN"
| "fl_div x NaN = NaN"
| "fl_div (Fin a) PInf = Fin 0"
| "fl_div (Fin a) NInf = Fin 0"
| "fl_div PInf (Fin b) = (if 0 \<le> b then PInf else NInf)"
| "fl_div NInf (Fin b) = (if 0 \<le> b then NInf else PInf)"
| "fl_div PInf PInf = NaN"
| "fl_div PInf NInf = NaN"
| "fl_div NInf PInf = NaN"
| "fl_div NInf NInf = NaN"

fun fl_sqrt :: "fl \<Rightarrow> fl" where
  "fl_sqrt (Fin a) = (if a < 0 then NaN else Fin (sqrt a))"
| "fl_sqrt PInf = PInf"
| "fl_sqrt NInf = NaN"
| "fl_sqrt NaN = NaN"

text \<open>The comparison \<^verbatim>\<open>x == 0\<close>: false for \<open>NaN\<close> and for the infinities.\<close>

definition fl_is_zero :: "fl \<Rightarrow> bool" where
  "fl_is_zero x = (x = Fin 0)"

text \<open>A NumPy boolean in arithmetic is \<open>1.0\<close> or \<open>0.0\<close>.\<close>

definition fl_of_bool :: "bool \<Rightarrow> fl" where
  "fl_of_bool b = (if b then Fin 1 else Fin 0)"

fun fl_le :: "fl \<Rightarrow> fl \<Rightarrow> bool" where
  "fl_le NaN y = False"
| "fl_le x NaN = False"
| "fl_le NInf y = True"
| "fl_le x PInf = True"
| "fl_le (Fin a) (Fin b) = (a \<le> b)"
| "fl_le PInf y = False"
| "fl_le x NInf = False"

text \<open>\<^verbatim>\<open>np.maximum\<close>, which \<^verbatim>\<open>np.max\<close> reduces with: \<open>NaN\<close> if either argument is.\<close>

definition fl_max :: "fl \<Rightarrow> fl \<Rightarrow> fl" where
  "fl_max x y = (if x = NaN \<or> y = NaN then NaN else if fl_le x y then y else x)"


subsection \<open>Errors\<close>

text \<open>
  The exceptions of the source and of the NumPy calls it makes. \<open>UnsupportedShape\<close> is
  the \<^verbatim>\<open>ValueError\<close> the objective raises itself; the other \<^verbatim>\<open>ValueError\<close>s are
  NumPy's.
\<close>

datatype error =
    UnsupportedShape
  | BroadcastError
  | ZeroSizeReduction
  | NegativeDimensions
  | AxisError
  | IndexError
  | TypeError

definition bind_err :: "error + 'a \<Rightarrow> ('a \<Rightarrow> error + 'b) \<Rightarrow> error + 'b" where
  "bind_err r f = (case r of Inl e \<Rightarrow> Inl e | Inr v \<Rightarrow> f v)"

subsection \<open>Arrays\<close>

text \<open>
  An \<^verbatim>\<open>np.ndarray\<close> of floats: its shape and its elements in row-major order. A
  well-formed array has as many elements as its shape says.
\<close>

record ndarray =
  shape :: "nat list"
  data :: "fl list"

definition well_formed :: "ndarray \<Rightarrow> bool" where
  "well_formed a = (length (data a) = prod_list (shape a))"

definition ndim :: "ndarray \<Rightarrow> nat" where
  "ndim a = length (shape a)"

text \<open>The first \<open>n\<close> consecutive blocks of \<open>m\<close> elements of a list.\<close>

fun chunks :: "nat \<Rightarrow> nat \<Rightarrow> 'a list \<Rightarrow> 'a list list" where
  "chunks 0 m xs = []"
| "chunks (Suc n) m xs = take m xs # chunks n m (drop m xs)"

text \<open>
  Broadcasting. Shapes are aligned at their last axis; two axes agree when they are
  equal or one of them is \<open>1\<close>. \<open>broadcast_shapes_rev\<close> works on reversed shapes.
\<close>

fun broadcast_shapes_rev :: "nat list \<Rightarrow> nat list \<Rightarrow> nat list option" where
  "broadcast_shapes_rev [] ys = Some ys"
| "broadcast_shapes_rev xs [] = Some xs"
| "broadcast_shapes_rev (x # xs) (y # ys) =
     (if x = y \<or> y = 1 then map_option ((#) x) (broadcast_shapes_rev xs ys)
      else if x = 1 then map_option ((#) y) (broadcast_shapes_rev xs ys)
      else None)"

definition broadcast_shapes :: "nat list \<Rightarrow> nat list \<Rightarrow> nat list option" where
  "broadcast_shapes s t = map_option rev (broadcast_shapes_rev (rev s) (rev t))"

definition pad_shape :: "nat \<Rightarrow> nat list \<Rightarrow> nat list" where
  "pad_shape n s = replicate (n - length s) 1 @ s"

text \<open>
  The elements of an array of shape \<open>s\<close> seen at shape \<open>t\<close> (of the same rank, every
  axis of \<open>s\<close> equal to that of \<open>t\<close> or \<open>1\<close>): an axis of length \<open>1\<close> is repeated.
\<close>

fun broadcast_data :: "nat list \<Rightarrow> nat list \<Rightarrow> 'a list \<Rightarrow> 'a list" where
  "broadcast_data (s # ss) (t # ts) xs =
     (if s = t then concat (map (broadcast_data ss ts) (chunks s (prod_list ss) xs))
      else concat (replicate t (broadcast_data ss ts xs)))"
| "broadcast_data ss ts xs = xs"

definition np_binop :: "(fl \<Rightarrow> fl \<Rightarrow> fl) \<Rightarrow> ndarray \<Rightarrow> ndarray \<Rightarrow> error + ndarray" where
  "np_binop f a b =
     (case broadcast_shapes (shape a) (shape b) of
        None \<Rightarrow> Inl BroadcastError
      | Some s \<Rightarrow>
          Inr \<lparr>shape = s,
               data = map2 f (broadcast_data (pad_shape (length s) (shape a)) s (data a))
                             (broadcast_data (pad_shape (length s) (shape b)) s (data b))\<rparr>)"

definition np_sub :: "ndarray \<Rightarrow> ndarray \<Rightarrow> error + ndarray" where
  "np_sub = np_binop fl_sub"

definition np_div :: "ndarray \<Rightarrow> ndarray \<Rightarrow> error + ndarray" where
  "np_div = np_binop fl_div"

text \<open>
  \<^verbatim>\<open>arr + (arr == 0) * eps\<close>, and the in-place \<^verbatim>\<open>arr += (arr == 0) * eps\<close>: the mask
  has the shape of \<open>arr\<close> and \<open>eps\<close> is a scalar, so the three operations are
  element-wise and cannot fail.
\<close>

definition guard_elem :: "fl \<Rightarrow> fl \<Rightarrow> fl" where
  "guard_elem eps x = fl_add x (fl_mul (fl_of_bool (fl_is_zero x)) eps)"

definition guard_zero :: "fl \<Rightarrow> ndarray \<Rightarrow> ndarray" where
  "guard_zero eps a = a\<lparr>data := map (guard_elem eps) (data a)\<rparr>"

text \<open>
  \<^verbatim>\<open>np.linalg.norm(arr, axis=...)\<close> with the default order, over the last axis
  (\<open>k = 1\<close>, \<^verbatim>\<open>axis=-1\<close>) or the last two axes jointly (\<open>k = 2\<close>, \<^verbatim>\<open>axis=(-1, -2)\<close>, the
  Frobenius norm): the square root of the sum of the squares. NumPy raises an
  \<^verbatim>\<open>AxisError\<close> when the array has fewer than \<open>k\<close> axes.
\<close>

definition fl_sum :: "fl list \<Rightarrow> fl" where
  "fl_sum xs = foldr fl_add xs (Fin 0)"

definition l2 :: "fl list \<Rightarrow> fl" where
  "l2 xs = fl_sqrt (fl_sum (map (\<lambda>x. fl_mul x x) xs))"

definition norm_last :: "nat \<Rightarrow> ndarray \<Rightarrow> error + ndarray" where
  "norm_last k a =
     (if ndim a < k then Inl AxisError
      else let outer = take (ndim a - k) (shape a);
               inner = drop (ndim a - k) (shape a)
           in Inr \<lparr>shape = outer,
                   data = map l2 (chunks (prod_list outer) (prod_list inner) (data a))\<rparr>)"

definition expand_dims_last :: "ndarray \<Rightarrow> ndarray" where
  "expand_dims_last a = a\<lparr>shape := shape a @ [1]\<rparr>"

subsection \<open>The objective\<close>

text \<open>
  The fields of the metric the two methods read. \<open>multi_label\<close>, \<open>return_aggregate\<close> and
  \<open>aggregate_func\<close> are attributes of the base class \<^verbatim>\<open>Metric\<close>.
\<close>

record metric_config =
  nr_samples :: int
  eps_min :: fl
  multi_label :: bool
  return_aggregate :: bool

text \<open>The rank dispatch of \<^verbatim>\<open>relative_output_stability_objective\<close>, in the source's order.\<close>

definition norm_function :: "bool \<Rightarrow> nat \<Rightarrow> error + (ndarray \<Rightarrow> error + ndarray)" where
  "norm_function ml num_dim =
     (if num_dim = 4 then Inr (\<lambda>arr. bind_err (norm_last 2 arr) (norm_last 1))
      else if num_dim = 3 then Inr (norm_last 2)
      else if num_dim = 2 then Inr (norm_last 1)
      else if num_dim = 5 \<and> ml then Inr (\<lambda>arr. bind_err (norm_last 2 arr) (norm_last 1))
      else Inl UnsupportedShape)"

definition nominator_quotient :: "fl \<Rightarrow> ndarray \<Rightarrow> ndarray \<Rightarrow> error + ndarray" where
  "nominator_quotient eps e_x e_xs =
     bind_err (np_sub e_x e_xs) (\<lambda>d. np_div d (guard_zero eps e_x))"

definition denominator_of :: "fl \<Rightarrow> ndarray \<Rightarrow> ndarray \<Rightarrow> error + ndarray" where
  "denominator_of eps h_x h_xs =
     bind_err (np_sub h_x h_xs) (\<lambda>d.
     bind_err (norm_last 1 d) (\<lambda>n. Inr (guard_zero eps n)))"

definition relative_output_stability_objective ::
  "metric_config \<Rightarrow> ndarray \<Rightarrow> ndarray \<Rightarrow> ndarray \<Rightarrow> ndarray \<Rightarrow> error + ndarray" where
  "relative_output_stability_objective self h_x h_xs e_x e_xs =
     bind_err (norm_function (multi_label self) (ndim e_x)) (\<lambda>norm_fn.
     bind_err (nominator_quotient (eps_min self) e_x e_xs) (\<lambda>q.
     bind_err (norm_fn q) (\<lambda>nominator.
     bind_err (denominator_of (eps_min self) h_x h_xs) (\<lambda>denominator.
       if multi_label self then np_div nominator (expand_dims_last denominator)
       else np_div nominator denominator))))"

subsection \<open>The sampling loop\<close>

text \<open>
  The label batch: a one-dimensional array of labels, or (multi-label) one list of labels
  for each input.
\<close>

datatype label_batch = Labels "int list" | LabelLists "int list list"

text \<open>What \<^verbatim>\<open>evaluate_batch\<close> returns: an array, a nested list, or a one-element list.\<close>

datatype ros_result = ResArray ndarray | ResLists "fl list list" | ResAggregate "fl list"

text \<open>
  The collaborators, none of them in this file of the source: \<^verbatim>\<open>model.predict\<close>, the
  perturbation \<^verbatim>\<open>perturb_batch\<close> with the metric's \<^verbatim>\<open>perturb_func\<close> (it draws fresh noise in
  every call: the argument of type \<open>nat\<close> is the number of the draw),
  \<^verbatim>\<open>self.explain_batch\<close>, \<^verbatim>\<open>self.changed_prediction_indices_func\<close> and
  \<^verbatim>\<open>self.aggregate_func\<close>. They are parameters: deterministic and total.
\<close>

record 'm collaborators =
  predict :: "'m \<Rightarrow> ndarray \<Rightarrow> ndarray"
  perturb_batch :: "nat \<Rightarrow> ndarray \<Rightarrow> ndarray"
  explain_batch :: "'m \<Rightarrow> ndarray \<Rightarrow> label_batch \<Rightarrow> ndarray"
  changed_prediction_indices_func :: "'m \<Rightarrow> ndarray \<Rightarrow> ndarray \<Rightarrow> int list"
  aggregate_func :: "ros_result \<Rightarrow> fl"

text \<open>
  The calls \<^verbatim>\<open>evaluate_batch\<close> makes to the collaborators, in order, each with its
  arguments. The two calls of \<^verbatim>\<open>model.predict\<close> in the source are told apart: the one
  before the loop (\<open>PredictBaseline\<close>) and the one inside it (\<open>PredictPerturbed\<close>).
\<close>

datatype call =
    PredictBaseline ndarray
  | Perturb nat ndarray
  | Explain ndarray label_batch
  | PredictPerturbed ndarray
  | ChangedIndices ndarray ndarray

text \<open>
  The draw matrix \<^verbatim>\<open>ros_batch\<close> is only ever indexed by the draw on its first axis: it
  is the list of its rows, each an array of shape \<open>[N]\<close> (or \<open>[N, L]\<close>, multi-label).
\<close>

record loop_state =
  ros_batch :: "ndarray list"
  calls :: "call list"

definition np_zeros :: "nat list \<Rightarrow> ndarray" where
  "np_zeros s = \<lparr>shape = s, data = replicate (prod_list s) (Fin 0)\<rparr>"

text \<open>
  The output array of \<^verbatim>\<open>evaluate_batch\<close>. \<^verbatim>\<open>a_batch.shape[1]\<close> raises an
  \<^verbatim>\<open>IndexError\<close> on an array of rank below two, and \<^verbatim>\<open>np.zeros\<close> a \<^verbatim>\<open>ValueError\<close> on a
  negative dimension.
\<close>

definition prepare_output :: "metric_config \<Rightarrow> nat \<Rightarrow> ndarray \<Rightarrow> error + ndarray list" where
  "prepare_output self batch_size a_batch =
     (if multi_label self then
        (case shape a_batch of
           a0 # a1 # _ \<Rightarrow>
             if nr_samples self < 0 then Inl NegativeDimensions
             else Inr (replicate (nat (nr_samples self)) (np_zeros [a0, a1]))
         | _ \<Rightarrow> Inl IndexError)
      else if nr_samples self < 0 then Inl NegativeDimensions
      else Inr (replicate (nat (nr_samples self)) (np_zeros [batch_size])))"

text \<open>
  Assignment to a slice, \<^verbatim>\<open>ros_batch[index] = ros\<close>: the value is broadcast to the
  shape of the row; NumPy drops leading axes of length one that the value has in excess.
\<close>

fun strip_leading_ones :: "nat \<Rightarrow> nat list \<Rightarrow> nat list" where
  "strip_leading_ones n [] = []"
| "strip_leading_ones n (x # xs) =
     (if n < length (x # xs) \<and> x = 1 then strip_leading_ones n xs else x # xs)"

definition assign_broadcast :: "nat list \<Rightarrow> ndarray \<Rightarrow> error + ndarray" where
  "assign_broadcast t v =
     (let s = strip_leading_ones (length t) (shape v) in
      if length s \<le> length t \<and> broadcast_shapes s t = Some t
      then Inr \<lparr>shape = t, data = broadcast_data (pad_shape (length t) s) t (data v)\<rparr>
      else Inl BroadcastError)"

definition set_row :: "nat \<Rightarrow> ndarray \<Rightarrow> ndarray list \<Rightarrow> error + ndarray list" where
  "set_row index ros rows =
     bind_err (assign_broadcast (shape (rows ! index)) ros) (\<lambda>r. Inr (rows[index := r]))"

text \<open>An index into an axis of length \<open>n\<close>: negative indices count from the end.\<close>

definition norm_index :: "nat \<Rightarrow> int \<Rightarrow> nat option" where
  "norm_index n i =
     (if 0 \<le> i \<and> i < int n then Some (nat i)
      else if - int n \<le> i \<and> i < 0 then Some (nat (int n + i))
      else None)"

text \<open>
  \<^verbatim>\<open>ros_batch[index, changed_prediction_indices] = np.nan\<close> on the row of the draw: every
  element of the listed samples becomes \<open>NaN\<close> (one element in a row of shape \<open>[N]\<close>, the
  \<open>L\<close> elements of the sample in a row of shape \<open>[N, L]\<close>).
\<close>

definition set_nan :: "int list \<Rightarrow> ndarray \<Rightarrow> error + ndarray" where
  "set_nan changed row =
     (case shape row of
        [] \<Rightarrow> Inl IndexError
      | n # rest \<Rightarrow>
          (case those (map (norm_index n) changed) of
             None \<Rightarrow> Inl IndexError
           | Some ids \<Rightarrow>
               Inr (row\<lparr>data := map (\<lambda>(k, x). if k div prod_list rest \<in> set ids then NaN else x)
                                     (enumerate 0 (data row))\<rparr>)))"

definition set_nan_at :: "nat \<Rightarrow> int list \<Rightarrow> ndarray list \<Rightarrow> error + ndarray list" where
  "set_nan_at index changed rows =
     bind_err (set_nan changed (rows ! index)) (\<lambda>r. Inr (rows[index := r]))"

text \<open>
  The body of the loop for the draw \<open>index\<close>. \<^verbatim>\<open>x_batch[0]\<close>, an argument of
  \<^verbatim>\<open>perturb_batch\<close>, raises an \<^verbatim>\<open>IndexError\<close> on an empty batch.
\<close>

definition draw_step ::
  "metric_config \<Rightarrow> 'm collaborators \<Rightarrow> 'm \<Rightarrow> ndarray \<Rightarrow> label_batch \<Rightarrow> ndarray \<Rightarrow> ndarray \<Rightarrow>
   nat \<Rightarrow> nat \<Rightarrow> loop_state \<Rightarrow> error + loop_state" where
  "draw_step self c model x_batch y_batch a_batch logits batch_size index st =
     (if batch_size = 0 then Inl IndexError
      else
        let x_perturbed = perturb_batch c index x_batch;
            a_batch_perturbed = explain_batch c model x_perturbed y_batch;
            logits_perturbed = predict c model x_perturbed
        in
        bind_err (relative_output_stability_objective self logits logits_perturbed
                    a_batch a_batch_perturbed) (\<lambda>ros.
        bind_err (set_row index ros (ros_batch st)) (\<lambda>rows.
        let changed_prediction_indices =
              changed_prediction_indices_func c model x_batch x_perturbed
        in
        bind_err (if length changed_prediction_indices \<noteq> 0
                  then set_nan_at index changed_prediction_indices rows
                  else Inr rows) (\<lambda>rows'.
        Inr \<lparr>ros_batch = rows',
             calls = calls st @
               [Perturb index x_batch, Explain x_perturbed y_batch,
                PredictPerturbed x_perturbed, ChangedIndices x_batch x_perturbed]\<rparr>))))"

text \<open>\<^verbatim>\<open>for index in range(self._nr_samples)\<close>: the first error ends the loop.\<close>

fun sampling_loop ::
  "metric_config \<Rightarrow> 'm collaborators \<Rightarrow> 'm \<Rightarrow> ndarray \<Rightarrow> label_batch \<Rightarrow> ndarray \<Rightarrow> ndarray \<Rightarrow>
   nat \<Rightarrow> nat list \<Rightarrow> loop_state \<Rightarrow> error + loop_state" where
  "sampling_loop self c model x_batch y_batch a_batch logits batch_size [] st = Inr st"
| "sampling_loop self c model x_batch y_batch a_batch logits batch_size (index # rest) st =
     bind_err (draw_step self c model x_batch y_batch a_batch logits batch_size index st)
       (sampling_loop self c model x_batch y_batch a_batch logits batch_size rest)"

subsection \<open>The reducer\<close>

text \<open>
  \<^verbatim>\<open>np.max(ros_batch, axis=0)\<close>: the rows are folded with \<^verbatim>\<open>np.maximum\<close>. NumPy raises a
  \<^verbatim>\<open>ValueError\<close> when the reduced axis is empty.
\<close>

definition np_max_axis0 :: "ndarray list \<Rightarrow> error + ndarray" where
  "np_max_axis0 rows =
     (case rows of
        [] \<Rightarrow> Inl ZeroSizeReduction
      | r # rs \<Rightarrow> Inr (r\<lparr>data := foldl (\<lambda>acc row. map2 fl_max acc (data row)) (data r) rs\<rparr>))"

text \<open>\<^verbatim>\<open>result[index, label]\<close> on the reduced result, of rank two in multi-label mode.\<close>

definition get2 :: "ndarray \<Rightarrow> nat \<Rightarrow> int \<Rightarrow> error + fl" where
  "get2 result index label =
     (case shape result of
        [n, l] \<Rightarrow>
          (if index < n then
             (case norm_index l label of
                Some j \<Rightarrow> Inr (data result ! (index * l + j))
              | None \<Rightarrow> Inl IndexError)
           else Inl IndexError)
      | _ \<Rightarrow> Inl IndexError)"

text \<open>The results of a list of computations, or the first error.\<close>

fun collect :: "(error + 'a) list \<Rightarrow> error + 'a list" where
  "collect [] = Inr []"
| "collect (r # rs) = bind_err r (\<lambda>v. bind_err (collect rs) (\<lambda>vs. Inr (v # vs)))"

text \<open>
  The multi-label reshape. Iterating over a label that is a number and not a list raises
  a \<^verbatim>\<open>TypeError\<close>.
\<close>

definition multi_label_lists :: "ndarray \<Rightarrow> label_batch \<Rightarrow> error + fl list list" where
  "multi_label_lists result y_batch =
     (case y_batch of
        Labels [] \<Rightarrow> Inr []
      | Labels (l # ls) \<Rightarrow> Inl TypeError
      | LabelLists lss \<Rightarrow>
          collect (map (\<lambda>(index, label_list). collect (map (get2 result index) label_list))
                       (enumerate 0 lss)))"

definition reducer ::
  "metric_config \<Rightarrow> 'm collaborators \<Rightarrow> ndarray list \<Rightarrow> label_batch \<Rightarrow> error + ros_result" where
  "reducer self c rows y_batch =
     bind_err (np_max_axis0 rows) (\<lambda>result.
     bind_err (if multi_label self
               then bind_err (multi_label_lists result y_batch) (\<lambda>result_list. Inr (ResLists result_list))
               else Inr (ResArray result)) (\<lambda>result.
     Inr (if return_aggregate self then ResAggregate [aggregate_func c result] else result)))"

text \<open>
  \<^verbatim>\<open>evaluate_batch\<close> up to the end of its loop: the draw matrix and the calls made to the
  collaborators. \<^verbatim>\<open>x_batch.shape[0]\<close> raises an \<^verbatim>\<open>IndexError\<close> on an array of rank zero.
\<close>

definition sample_draws ::
  "metric_config \<Rightarrow> 'm collaborators \<Rightarrow> 'm \<Rightarrow> ndarray \<Rightarrow> label_batch \<Rightarrow> ndarray \<Rightarrow>
   error + loop_state" where
  "sample_draws self c model x_batch y_batch a_batch =
     (case shape x_batch of
        [] \<Rightarrow> Inl IndexError
      | batch_size # _ \<Rightarrow>
          let logits = predict c model x_batch in
          bind_err (prepare_output self batch_size a_batch) (\<lambda>rows0.
          sampling_loop self c model x_batch y_batch a_batch logits batch_size
            [0..<nat (nr_samples self)]
            \<lparr>ros_batch = rows0, calls = [PredictBaseline x_batch]\<rparr>))"

text \<open>\<^verbatim>\<open>evaluate_batch\<close>: the result, and the calls made to the collaborators.\<close>

definition evaluate_batch ::
  "metric_config \<Rightarrow> 'm collaborators \<Rightarrow> 'm \<Rightarrow> ndarray \<Rightarrow> label_batch \<Rightarrow> ndarray \<Rightarrow>
   error + (ros_result \<times> call list)" where
  "evaluate_batch self c model x_batch y_batch a_batch =
     bind_err (sample_draws self c model x_batch y_batch a_batch) (\<lambda>st.
     bind_err (reducer self c (ros_batch st) y_batch) (\<lambda>result.
     Inr (result, calls st)))"

subsection \<open>The draws, one by one\<close>

text \<open>
  What the draw \<open>d\<close> computes, read off the body of the loop: the perturbed batch, the
  value of the objective, the indices the prediction-change detector reports, the calls
  the draw makes, and the row the draw leaves in the draw matrix.
\<close>

definition draw_objective ::
  "metric_config \<Rightarrow> 'm collaborators \<Rightarrow> 'm \<Rightarrow> ndarray \<Rightarrow> label_batch \<Rightarrow> ndarray \<Rightarrow>
   nat \<Rightarrow> error + ndarray" where
  "draw_objective self c model x_batch y_batch a_batch d =
     relative_output_stability_objective self
       (predict c model x_batch) (predict c model (perturb_batch c d x_batch))
       a_batch (explain_batch c model (perturb_batch c d x_batch) y_batch)"

definition draw_changed :: "'m collaborators \<Rightarrow> 'm \<Rightarrow> ndarray \<Rightarrow> nat \<Rightarrow> int list" where
  "draw_changed c model x_batch d =
     changed_prediction_indices_func c model x_batch (perturb_batch c d x_batch)"

definition draw_calls :: "'m collaborators \<Rightarrow> ndarray \<Rightarrow> label_batch \<Rightarrow> nat \<Rightarrow> call list" where
  "draw_calls c x_batch y_batch d =
     [Perturb d x_batch, Explain (perturb_batch c d x_batch) y_batch,
      PredictPerturbed (perturb_batch c d x_batch),
      ChangedIndices x_batch (perturb_batch c d x_batch)]"

definition draw_row ::
  "metric_config \<Rightarrow> 'm collaborators \<Rightarrow> 'm \<Rightarrow> ndarray \<Rightarrow> label_batch \<Rightarrow> ndarray \<Rightarrow>
   nat list \<Rightarrow> nat \<Rightarrow> error + ndarray" where
  "draw_row self c model x_batch y_batch a_batch row_shape d =
     bind_err (draw_objective self c model x_batch y_batch a_batch d) (\<lambda>ros.
     bind_err (assign_broadcast row_shape ros) (\<lambda>r.
       if length (draw_changed c model x_batch d) \<noteq> 0
       then set_nan (draw_changed c model x_batch d) r
       else Inr r))"

subsection \<open>Notions for the statements, and scenarios to run them on\<close>

text \<open>The row \<open>i\<close> of an array of rank two with \<open>c\<close> columns: the logits of sample \<open>i\<close>.\<close>

definition row_of :: "nat \<Rightarrow> nat \<Rightarrow> ndarray \<Rightarrow> fl list" where
  "row_of c i a = take c (drop (i * c) (data a))"

text \<open>
  The objective with its two guards left out: the norm of the element-wise quotient
  \<^verbatim>\<open>(e_x - e_xs) / e_x\<close>, divided by the norm of \<^verbatim>\<open>h_x - h_xs\<close>.
\<close>

definition unguarded_objective ::
  "metric_config \<Rightarrow> ndarray \<Rightarrow> ndarray \<Rightarrow> ndarray \<Rightarrow> ndarray \<Rightarrow> error + ndarray" where
  "unguarded_objective self h_x h_xs e_x e_xs =
     bind_err (norm_function (multi_label self) (ndim e_x)) (\<lambda>norm_fn.
     bind_err (bind_err (np_sub e_x e_xs) (\<lambda>d. np_div d e_x)) (\<lambda>q.
     bind_err (norm_fn q) (\<lambda>nominator.
     bind_err (bind_err (np_sub h_x h_xs) (norm_last 1)) (\<lambda>denominator.
       if multi_label self then np_div nominator (expand_dims_last denominator)
       else np_div nominator denominator))))"

text \<open>
  The formula of the specification, in its words: \<^verbatim>\<open>norm(e_x - e_xs) / norm(e_x)\<close>, divided
  by \<^verbatim>\<open>norm(h_x - h_xs)\<close>. It is compared with the objective below.
\<close>

definition claimed_objective ::
  "metric_config \<Rightarrow> ndarray \<Rightarrow> ndarray \<Rightarrow> ndarray \<Rightarrow> ndarray \<Rightarrow> error + ndarray" where
  "claimed_objective self h_x h_xs e_x e_xs =
     bind_err (norm_function (multi_label self) (ndim e_x)) (\<lambda>norm_fn.
     bind_err (bind_err (np_sub e_x e_xs) norm_fn) (\<lambda>norm_difference.
     bind_err (norm_fn e_x) (\<lambda>norm_e_x.
     bind_err (np_div norm_difference norm_e_x) (\<lambda>nominator.
     bind_err (bind_err (np_sub h_x h_xs) (norm_last 1)) (\<lambda>denominator.
       np_div nominator denominator)))))"

text \<open>\<^verbatim>\<open>np.max\<close> of a list that is not empty: the values of one sample over the draws.\<close>

definition np_max_list :: "fl list \<Rightarrow> fl" where
  "np_max_list xs = foldl fl_max (hd xs) (tl xs)"

text \<open>
  The shape of a row of the draw matrix: \<open>[N]\<close> for the \<open>N\<close> inputs of the batch, or
  \<open>[N, L]\<close> from the explanations in multi-label mode.
\<close>

definition row_shape_of :: "metric_config \<Rightarrow> ndarray \<Rightarrow> ndarray \<Rightarrow> nat list" where
  "row_shape_of self x_batch a_batch =
     (if multi_label self then take 2 (shape a_batch) else take 1 (shape x_batch))"

text \<open>
  A row with every element of the samples listed in \<open>changed\<close> replaced by \<open>NaN\<close>;
  \<open>rest\<close> is the shape of one sample's part of the row.
\<close>

definition nan_marked :: "nat list \<Rightarrow> int list \<Rightarrow> ndarray \<Rightarrow> ndarray" where
  "nan_marked rest changed ros =
     ros\<lparr>data := map (\<lambda>(k, v). if int (k div prod_list rest) \<in> set changed then NaN else v)
                     (enumerate 0 (data ros))\<rparr>"

text \<open>
  Every draw runs through: its objective returns a well-formed array \<open>ros d\<close> of the shape
  of a row of the draw matrix, and the prediction-change detector reports indices of
  samples of the batch.
\<close>

definition draws_succeed ::
  "metric_config \<Rightarrow> 'm collaborators \<Rightarrow> 'm \<Rightarrow> ndarray \<Rightarrow> label_batch \<Rightarrow> ndarray \<Rightarrow>
   (nat \<Rightarrow> ndarray) \<Rightarrow> bool" where
  "draws_succeed self c model x_batch y_batch a_batch ros =
     (\<forall>d < nat (nr_samples self).
        draw_objective self c model x_batch y_batch a_batch d = Inr (ros d) \<and>
        shape (ros d) = row_shape_of self x_batch a_batch \<and> well_formed (ros d) \<and>
        list_all (\<lambda>i. 0 \<le> i \<and> i < int (hd (row_shape_of self x_batch a_batch)))
          (draw_changed c model x_batch d))"

text \<open>
  A scenario to run the properties on: two inputs with one feature each, a model that
  returns its input as logits, explanations that square the input, a perturbation that
  scales the input by \<open>d + 2\<close> in draw \<open>d\<close>, and a detector that reports sample \<open>0\<close> in
  draw \<open>1\<close>.
\<close>

definition stub_x_batch :: ndarray where
  "stub_x_batch = \<lparr>shape = [2, 1], data = [Fin 1, Fin 2]\<rparr>"

definition stub_square :: "ndarray \<Rightarrow> ndarray" where
  "stub_square x = x\<lparr>data := map (\<lambda>v. fl_mul v v) (data x)\<rparr>"

definition stub_scale :: "nat \<Rightarrow> ndarray \<Rightarrow> ndarray" where
  "stub_scale d x = x\<lparr>data := map (\<lambda>v. fl_mul v (Fin (real (d + 2)))) (data x)\<rparr>"

definition stub_collaborators :: "unit collaborators" where
  "stub_collaborators =
     \<lparr>predict = (\<lambda>model x. x),
      perturb_batch = stub_scale,
      explain_batch = (\<lambda>model x y. stub_square x),
      changed_prediction_indices_func =
        (\<lambda>model x x_perturbed. if x_perturbed = stub_scale 1 x then [0] else []),
      aggregate_func = (\<lambda>result. case result of ResArray a \<Rightarrow> fl_sum (data a) | _ \<Rightarrow> NaN)\<rparr>"

definition stub_metric :: metric_config where
  "stub_metric =
     \<lparr>nr_samples = 2, eps_min = Fin (1 / 1000000), multi_label = False, return_aggregate = False\<rparr>"

definition stub_ros :: "nat \<Rightarrow> ndarray" where
  "stub_ros d = (if d = 0 then \<lparr>shape = [2], data = [Fin 3, Fin (3 / 2)]\<rparr>
                 else \<lparr>shape = [2], data = [Fin 4, Fin 2]\<rparr>)"

text \<open>
  The scenario in multi-label mode: three labels, explanations of shape
  \<open>[2, 3, 1, 1, 1]\<close>, the labels \<open>0\<close> and \<open>1\<close> for the first input and \<open>2\<close> for the second.
\<close>

definition stub_ml_metric :: metric_config where
  "stub_ml_metric =
     \<lparr>nr_samples = 2, eps_min = Fin (1 / 1000000), multi_label = True, return_aggregate = False\<rparr>"

definition stub_ml_explain :: "ndarray \<Rightarrow> ndarray" where
  "stub_ml_explain x =
     \<lparr>shape = [2, 3, 1, 1, 1],
      data = concat (map (\<lambda>v. [v, fl_mul v v, fl_mul v (fl_mul v v)]) (data x))\<rparr>"

definition stub_ml_collaborators :: "unit collaborators" where
  "stub_ml_collaborators = stub_collaborators\<lparr>explain_batch := (\<lambda>model x y. stub_ml_explain x)\<rparr>"

definition stub_ml_y_batch :: label_batch where
  "stub_ml_y_batch = LabelLists [[0, 1], [2]]"

definition stub_ml_ros :: "nat \<Rightarrow> ndarray" where
  "stub_ml_ros d =
     (if d = 0 then \<lparr>shape = [2, 3], data = [Fin 1, Fin 3, Fin 7, Fin (1 / 2), Fin (3 / 2), Fin (7 / 2)]\<rparr>
      else \<lparr>shape = [2, 3], data = [Fin 1, Fin 4, Fin 13, Fin (1 / 2), Fin 2, Fin (13 / 2)]\<rparr>)"

text \<open>
  The scenario with explanations of rank three that carry the three labels on their last
  axis, of shape \<open>[2, 1, 3]\<close> and of shape \<open>[2, 2, 3]\<close>.
\<close>

definition stub_r3_explain :: "ndarray \<Rightarrow> ndarray" where
  "stub_r3_explain x =
     \<lparr>shape = [2, 1, 3],
      data = concat (map (\<lambda>v. [v, fl_mul v v, fl_mul v (fl_mul v v)]) (data x))\<rparr>"

definition stub_r3_collaborators :: "unit collaborators" where
  "stub_r3_collaborators =
     stub_collaborators\<lparr>explain_batch := (\<lambda>model x y. stub_r3_explain x)\<rparr>"

definition stub_r3_wide_explain :: "ndarray \<Rightarrow> ndarray" where
  "stub_r3_wide_explain x =
     \<lparr>shape = [2, 2, 3],
      data = concat (map (\<lambda>v. [v, fl_mul v v, fl_mul v (fl_mul v v),
                                  v, fl_mul v v, fl_mul v (fl_mul v v)]) (data x))\<rparr>"

definition stub_r3_wide_collaborators :: "unit collaborators" where
  "stub_r3_wide_collaborators =
     stub_collaborators\<lparr>explain_batch := (\<lambda>model x y. stub_r3_wide_explain x)\<rparr>"

text \<open>The values of the objective in the two draws, at shape \<open>[2, 2, 3]\<close>.\<close>

definition stub_r3_wide_ros :: "nat \<Rightarrow> ndarray" where
  "stub_r3_wide_ros d =
     (if d = 0
      then \<lparr>shape = [2, 2],
             data = [Fin (sqrt 118), Fin (sqrt 118), Fin (sqrt 118 / 2), Fin (sqrt 118 / 2)]\<rparr>
      else \<lparr>shape = [2, 2],
             data = [Fin (sqrt 1488 / 2), Fin (sqrt 1488 / 2), Fin (sqrt 1488 / 4),
                     Fin (sqrt 1488 / 4)]\<rparr>)"

subsection \<open>The collaborators with their effects\<close>

text \<open>
  The collaborators are Python callables. A call may read and change state that is not in
  this file (the random generator of the perturbation, a model that counts or caches its
  calls), and two calls with the same arguments need not return the same value. In this
  second embedding of \<^verbatim>\<open>evaluate_batch\<close> every collaborator is a function on a state
  \<open>'s\<close> of its surroundings: it takes the state in which it is called and returns its value
  with the state it leaves. The state is threaded through the calls in the order of the
  source, so that a call is made exactly where the state is passed through a collaborator.

  A value that a call returned is not changed by a later call: the array bound to
  \<^verbatim>\<open>logits\<close> is taken not to be aliased by the collaborators. The source itself never
  assigns to \<^verbatim>\<open>logits\<close> or to an element of it.
\<close>

record ('m, 's) io_collaborators =
  io_predict :: "'m \<Rightarrow> ndarray \<Rightarrow> 's \<Rightarrow> ndarray \<times> 's"
  io_perturb_batch :: "ndarray \<Rightarrow> 's \<Rightarrow> ndarray \<times> 's"
  io_explain_batch :: "'m \<Rightarrow> ndarray \<Rightarrow> label_batch \<Rightarrow> 's \<Rightarrow> ndarray \<times> 's"
  io_changed_prediction_indices_func :: "'m \<Rightarrow> ndarray \<Rightarrow> ndarray \<Rightarrow> 's \<Rightarrow> int list \<times> 's"
  io_aggregate_func :: "ros_result \<Rightarrow> 's \<Rightarrow> fl \<times> 's"

text \<open>
  The body of the loop. The calls are, in this order: \<^verbatim>\<open>perturb_batch\<close>,
  \<^verbatim>\<open>self.explain_batch\<close>, \<^verbatim>\<open>model.predict\<close> on the perturbed input, and, after the
  objective has returned and its value has been stored, \<^verbatim>\<open>self.changed_prediction_indices_func\<close>.
\<close>

definition io_draw_step ::
  "metric_config \<Rightarrow> ('m, 's) io_collaborators \<Rightarrow> 'm \<Rightarrow> ndarray \<Rightarrow> label_batch \<Rightarrow> ndarray \<Rightarrow>
   ndarray \<Rightarrow> nat \<Rightarrow> nat \<Rightarrow> ndarray list \<times> 's \<Rightarrow> error + ndarray list \<times> 's" where
  "io_draw_step self c model x_batch y_batch a_batch logits batch_size index st =
     (if batch_size = 0 then Inl IndexError
      else
        case io_perturb_batch c x_batch (snd st) of (x_perturbed, s1) \<Rightarrow>
        case io_explain_batch c model x_perturbed y_batch s1 of (a_batch_perturbed, s2) \<Rightarrow>
        case io_predict c model x_perturbed s2 of (logits_perturbed, s3) \<Rightarrow>
        bind_err (relative_output_stability_objective self logits logits_perturbed
                    a_batch a_batch_perturbed) (\<lambda>ros.
        bind_err (set_row index ros (fst st)) (\<lambda>rows.
        case io_changed_prediction_indices_func c model x_batch x_perturbed s3 of
          (changed_prediction_indices, s4) \<Rightarrow>
        bind_err (if length changed_prediction_indices \<noteq> 0
                  then set_nan_at index changed_prediction_indices rows
                  else Inr rows) (\<lambda>rows'.
        Inr (rows', s4)))))"

fun io_sampling_loop ::
  "metric_config \<Rightarrow> ('m, 's) io_collaborators \<Rightarrow> 'm \<Rightarrow> ndarray \<Rightarrow> label_batch \<Rightarrow> ndarray \<Rightarrow>
   ndarray \<Rightarrow> nat \<Rightarrow> nat list \<Rightarrow> ndarray list \<times> 's \<Rightarrow> error + ndarray list \<times> 's" where
  "io_sampling_loop self c model x_batch y_batch a_batch logits batch_size [] st = Inr st"
| "io_sampling_loop self c model x_batch y_batch a_batch logits batch_size (index # rest) st =
     bind_err (io_draw_step self c model x_batch y_batch a_batch logits batch_size index st)
       (io_sampling_loop self c model x_batch y_batch a_batch logits batch_size rest)"

text \<open>
  \<^verbatim>\<open>evaluate_batch\<close> up to the end of the loop: \<^verbatim>\<open>logits = model.predict(x_batch)\<close>, the
  output array, and the draws.
\<close>

definition io_sample_draws ::
  "metric_config \<Rightarrow> ('m, 's) io_collaborators \<Rightarrow> 'm \<Rightarrow> ndarray \<Rightarrow> label_batch \<Rightarrow> ndarray \<Rightarrow>
   's \<Rightarrow> error + ndarray list \<times> 's" where
  "io_sample_draws self c model x_batch y_batch a_batch s0 =
     (case shape x_batch of
        [] \<Rightarrow> Inl IndexError
      | batch_size # _ \<Rightarrow>
          case io_predict c model x_batch s0 of (logits, s1) \<Rightarrow>
          bind_err (prepare_output self batch_size a_batch) (\<lambda>rows0.
          io_sampling_loop self c model x_batch y_batch a_batch logits batch_size
            [0..<nat (nr_samples self)] (rows0, s1)))"

text \<open>\<^verbatim>\<open>evaluate_batch\<close>, with the reduction over the draws and the call of the aggregate.\<close>

definition io_evaluate_batch ::
  "metric_config \<Rightarrow> ('m, 's) io_collaborators \<Rightarrow> 'm \<Rightarrow> ndarray \<Rightarrow> label_batch \<Rightarrow> ndarray \<Rightarrow>
   's \<Rightarrow> error + ros_result \<times> 's" where
  "io_evaluate_batch self c model x_batch y_batch a_batch s0 =
     bind_err (io_sample_draws self c model x_batch y_batch a_batch s0) (\<lambda>st.
     bind_err (np_max_axis0 (fst st)) (\<lambda>result.
     bind_err (if multi_label self
               then bind_err (multi_label_lists result y_batch) (\<lambda>result_list. Inr (ResLists result_list))
               else Inr (ResArray result)) (\<lambda>result.
     if return_aggregate self
     then (case io_aggregate_func c result (snd st) of (v, s') \<Rightarrow> Inr (ResAggregate [v], s'))
     else Inr (result, snd st))))"

text \<open>
  The four calls of one draw that starts in state \<open>s\<close>: the values they return and the
  state they leave.
\<close>

definition io_draw ::
  "('m, 's) io_collaborators \<Rightarrow> 'm \<Rightarrow> ndarray \<Rightarrow> label_batch \<Rightarrow> 's \<Rightarrow>
   (ndarray \<times> ndarray \<times> ndarray \<times> int list) \<times> 's" where
  "io_draw c model x_batch y_batch s =
     (case io_perturb_batch c x_batch s of (x_perturbed, s1) \<Rightarrow>
      case io_explain_batch c model x_perturbed y_batch s1 of (a_batch_perturbed, s2) \<Rightarrow>
      case io_predict c model x_perturbed s2 of (logits_perturbed, s3) \<Rightarrow>
      case io_changed_prediction_indices_func c model x_batch x_perturbed s3 of (changed, s4) \<Rightarrow>
        ((x_perturbed, a_batch_perturbed, logits_perturbed, changed), s4))"

definition io_draw_state ::
  "('m, 's) io_collaborators \<Rightarrow> 'm \<Rightarrow> ndarray \<Rightarrow> label_batch \<Rightarrow> 's \<Rightarrow> 's" where
  "io_draw_state c model x_batch y_batch s = snd (io_draw c model x_batch y_batch s)"

text \<open>
  The row that a draw starting in state \<open>s\<close> writes into the draw matrix, from the value
  \<open>logits\<close> as the first argument of the objective.
\<close>

definition io_draw_row ::
  "metric_config \<Rightarrow> ('m, 's) io_collaborators \<Rightarrow> 'm \<Rightarrow> ndarray \<Rightarrow> label_batch \<Rightarrow> ndarray \<Rightarrow>
   ndarray \<Rightarrow> nat list \<Rightarrow> 's \<Rightarrow> error + ndarray" where
  "io_draw_row self c model x_batch y_batch a_batch logits row_shape s =
     (case fst (io_draw c model x_batch y_batch s) of
        (x_perturbed, a_batch_perturbed, logits_perturbed, changed) \<Rightarrow>
          bind_err (relative_output_stability_objective self logits logits_perturbed
                      a_batch a_batch_perturbed) (\<lambda>ros.
          bind_err (assign_broadcast row_shape ros) (\<lambda>r.
            if length changed \<noteq> 0 then set_nan changed r else Inr r)))"

text \<open>The objective of a draw that starts in state \<open>s\<close>, on the value \<open>logits\<close>.\<close>

definition draw_objective_io ::
  "metric_config \<Rightarrow> ('m, 's) io_collaborators \<Rightarrow> 'm \<Rightarrow> ndarray \<Rightarrow> label_batch \<Rightarrow> ndarray \<Rightarrow>
   ndarray \<Rightarrow> 's \<Rightarrow> error + ndarray" where
  "draw_objective_io self c model x_batch y_batch a_batch logits s =
     (case fst (io_draw c model x_batch y_batch s) of
        (x_perturbed, a_batch_perturbed, logits_perturbed, changed) \<Rightarrow>
          relative_output_stability_objective self logits logits_perturbed
            a_batch a_batch_perturbed)"

text \<open>
  A record of the calls. \<open>logged c\<close> is the collaborators \<open>c\<close>, each of which appends the
  call to a list in the state when it is applied, and only then: the list after a run is
  the sequence of the calls the run has made.
\<close>

datatype io_call =
    CallPredict ndarray
  | CallPerturb ndarray
  | CallExplain ndarray label_batch
  | CallChanged ndarray ndarray
  | CallAggregate ros_result

fun is_call_predict :: "io_call \<Rightarrow> bool" where
  "is_call_predict (CallPredict x) = True"
| "is_call_predict other = False"

definition logged :: "('m, 's) io_collaborators \<Rightarrow> ('m, io_call list \<times> 's) io_collaborators" where
  "logged c =
     \<lparr>io_predict = (\<lambda>model x (trace, s).
        case io_predict c model x s of (v, s') \<Rightarrow> (v, (trace @ [CallPredict x], s'))),
      io_perturb_batch = (\<lambda>x (trace, s).
        case io_perturb_batch c x s of (v, s') \<Rightarrow> (v, (trace @ [CallPerturb x], s'))),
      io_explain_batch = (\<lambda>model x y (trace, s).
        case io_explain_batch c model x y s of (v, s') \<Rightarrow> (v, (trace @ [CallExplain x y], s'))),
      io_changed_prediction_indices_func = (\<lambda>model x x_perturbed (trace, s).
        case io_changed_prediction_indices_func c model x x_perturbed s of
          (v, s') \<Rightarrow> (v, (trace @ [CallChanged x x_perturbed], s'))),
      io_aggregate_func = (\<lambda>result (trace, s).
        case io_aggregate_func c result s of (v, s') \<Rightarrow> (v, (trace @ [CallAggregate result], s')))\<rparr>"

text \<open>The calls of one draw that starts in state \<open>s\<close>.\<close>

definition io_draw_log ::
  "('m, 's) io_collaborators \<Rightarrow> 'm \<Rightarrow> ndarray \<Rightarrow> label_batch \<Rightarrow> 's \<Rightarrow> io_call list" where
  "io_draw_log c model x_batch y_batch s =
     (case fst (io_draw c model x_batch y_batch s) of
        (x_perturbed, a_batch_perturbed, logits_perturbed, changed) \<Rightarrow>
          [CallPerturb x_batch, CallExplain x_perturbed y_batch, CallPredict x_perturbed,
           CallChanged x_batch x_perturbed])"

text \<open>
  The value of \<^verbatim>\<open>model.predict(x_batch)\<close> in the state \<open>s0\<close> in which \<^verbatim>\<open>evaluate_batch\<close> is
  entered, and the state in which the draw \<open>d\<close> starts.
\<close>

definition baseline_logits ::
  "('m, 's) io_collaborators \<Rightarrow> 'm \<Rightarrow> ndarray \<Rightarrow> 's \<Rightarrow> ndarray" where
  "baseline_logits c model x_batch s0 = fst (io_predict c model x_batch s0)"

definition draw_start ::
  "('m, 's) io_collaborators \<Rightarrow> 'm \<Rightarrow> ndarray \<Rightarrow> label_batch \<Rightarrow> 's \<Rightarrow> nat \<Rightarrow> 's" where
  "draw_start c model x_batch y_batch s0 d =
     (io_draw_state c model x_batch y_batch ^^ d) (snd (io_predict c model x_batch s0))"

text \<open>
  The collaborators of the first embedding as collaborators with effects: the state is the
  number of the draw, read by the perturbation and advanced at the end of the draw.
\<close>

definition stateless :: "'m collaborators \<Rightarrow> ('m, nat) io_collaborators" where
  "stateless c =
     \<lparr>io_predict = (\<lambda>model x s. (predict c model x, s)),
      io_perturb_batch = (\<lambda>x s. (perturb_batch c s x, s)),
      io_explain_batch = (\<lambda>model x y s. (explain_batch c model x y, s)),
      io_changed_prediction_indices_func =
        (\<lambda>model x x_perturbed s. (changed_prediction_indices_func c model x x_perturbed, Suc s)),
      io_aggregate_func = (\<lambda>result s. (aggregate_func c result, s))\<rparr>"

text \<open>
  A scenario with effects: the state counts the calls of \<^verbatim>\<open>model.predict\<close>, and the model
  scales its input by the count plus two, so that no two calls return the same logits for
  the same input. The perturbation doubles the input, the explanations square it, and the
  detector reports sample \<open>0\<close> once the model has been called three times.
\<close>

definition stub_io_collaborators :: "(unit, nat) io_collaborators" where
  "stub_io_collaborators =
     \<lparr>io_predict = (\<lambda>model x s. (stub_scale s x, s + 1)),
      io_perturb_batch = (\<lambda>x s. (stub_scale 0 x, s)),
      io_explain_batch = (\<lambda>model x y s. (stub_square x, s)),
      io_changed_prediction_indices_func =
        (\<lambda>model x x_perturbed s. (if s = 3 then [0] else [], s)),
      io_aggregate_func =
        (\<lambda>result s. (case result of ResArray a \<Rightarrow> fl_sum (data a) | _ \<Rightarrow> NaN, s))\<rparr>"

section \<open>Properties\<close>

lemma bind_err_Inr [simp]: "bind_err (Inr v) f = f v"
  by (simp add: bind_err_def)

lemma bind_err_Inl [simp]: "bind_err (Inl e) f = Inl e"
  by (simp add: bind_err_def)

subsection \<open>Lists, shapes and broadcasting\<close>

lemma length_chunks [simp]: "length (chunks n m xs) = n"
  by (induction n arbitrary: xs) auto

lemma concat_chunks: "length xs = n * m \<Longrightarrow> concat (chunks n m xs) = xs"
  by (induction n arbitrary: xs) auto

lemma chunks_nth: "i < n \<Longrightarrow> chunks n m xs ! i = take m (drop (i * m) xs)"
proof (induction n arbitrary: xs i)
  case 0
  then show ?case by simp
next
  case (Suc n)
  show ?case
  proof (cases i)
    case 0
    then show ?thesis by simp
  next
    case (Suc j)
    with Suc.prems have "j < n" by simp
    then show ?thesis using Suc.IH [of j "drop m xs"] Suc by (simp add: add.commute)
  qed
qed

lemma chunks_length_elem: "length xs = n * m \<Longrightarrow> ys \<in> set (chunks n m xs) \<Longrightarrow> length ys = m"
proof (induction n arbitrary: xs)
  case 0
  then show ?case by simp
next
  case (Suc n)
  have len: "length (drop m xs) = n * m" using Suc.prems(1) by simp
  from Suc.prems(2) have "ys = take m xs \<or> ys \<in> set (chunks n m (drop m xs))" by simp
  then show ?case
  proof
    assume "ys = take m xs"
    then show ?thesis using Suc.prems(1) by simp
  next
    assume "ys \<in> set (chunks n m (drop m xs))"
    then show ?thesis using Suc.IH [OF len] by blast
  qed
qed

lemma broadcast_shapes_rev_same: "broadcast_shapes_rev s s = Some s"
  by (induction s) auto

lemma broadcast_shapes_same [simp]: "broadcast_shapes s s = Some s"
  by (simp add: broadcast_shapes_def broadcast_shapes_rev_same)

lemma broadcast_data_same: "length xs = prod_list s \<Longrightarrow> broadcast_data s s xs = xs"
proof (induction s arbitrary: xs)
  case Nil
  then show ?case by simp
next
  case (Cons a s)
  have "map (broadcast_data s s) (chunks a (prod_list s) xs) = chunks a (prod_list s) xs"
    using Cons.prems by (intro map_idI Cons.IH) (auto dest: chunks_length_elem)
  then show ?case using Cons.prems by (simp add: concat_chunks)
qed

lemma pad_shape_same [simp]: "pad_shape (length s) s = s"
  by (simp add: pad_shape_def)

lemma np_binop_same_shape:
  "shape b = shape a \<Longrightarrow> well_formed a \<Longrightarrow> well_formed b \<Longrightarrow>
   np_binop f a b = Inr \<lparr>shape = shape a, data = map2 f (data a) (data b)\<rparr>"
  by (simp add: np_binop_def well_formed_def broadcast_data_same)

lemma guard_elem_finite:
  "guard_elem (Fin e) x = (if fl_is_zero x then Fin e else x)"
  by (cases x) (auto simp: guard_elem_def fl_is_zero_def fl_of_bool_def)

lemma guard_elem_nonzero: "e \<noteq> 0 \<Longrightarrow> \<not> fl_is_zero (guard_elem (Fin e) x)"
  by (simp add: guard_elem_finite) (simp add: fl_is_zero_def)

subsection \<open>The numerator\<close>

lemma nominator_quotient_same_shape:
  assumes "shape e_xs = shape e_x" "well_formed e_x" "well_formed e_xs"
  shows "nominator_quotient eps e_x e_xs =
         Inr \<lparr>shape = shape e_x,
              data = map2 fl_div (map2 fl_sub (data e_x) (data e_xs)) (map (guard_elem eps) (data e_x))\<rparr>"
proof -
  have wf: "length (data e_xs) = length (data e_x)"
    using assms by (simp add: well_formed_def)
  have sub: "np_sub e_x e_xs = Inr \<lparr>shape = shape e_x, data = map2 fl_sub (data e_x) (data e_xs)\<rparr>"
    unfolding np_sub_def using assms by (rule np_binop_same_shape)
  have "np_div \<lparr>shape = shape e_x, data = map2 fl_sub (data e_x) (data e_xs)\<rparr> (guard_zero eps e_x)
        = Inr \<lparr>shape = shape e_x,
              data = map2 fl_div (map2 fl_sub (data e_x) (data e_xs)) (map (guard_elem eps) (data e_x))\<rparr>"
    unfolding np_div_def using assms wf
    by (subst np_binop_same_shape) (simp_all add: guard_zero_def well_formed_def)
  with sub show ?thesis by (simp add: nominator_quotient_def)
qed

text \<open>
  Claim C2. In the numerator of the objective, the element-wise quotient
  \<^verbatim>\<open>(e_x - e_xs) / (e_x + (e_x == 0) * eps_min)\<close> divides by \<open>eps_min\<close> wherever the element
  of \<open>e_x\<close> is exactly zero and by the element itself wherever it is not, and the divisor
  is never zero: no element of the quotient is the result of a division by zero.
  \<open>eps_min\<close> is a finite number other than zero.
\<close>

theorem numerator_guard:
  assumes "eps_min self = Fin e" "e \<noteq> 0"
    and "shape e_xs = shape e_x" "well_formed e_x" "well_formed e_xs"
    and "i < length (data e_x)"
  shows "\<exists>q. nominator_quotient (eps_min self) e_x e_xs = Inr q \<and>
           shape q = shape e_x \<and> length (data q) = length (data e_x) \<and>
           data (guard_zero (eps_min self) e_x) ! i =
             (if fl_is_zero (data e_x ! i) then eps_min self else data e_x ! i) \<and>
           data q ! i =
             fl_div (fl_sub (data e_x ! i) (data e_xs ! i))
                    (if fl_is_zero (data e_x ! i) then eps_min self else data e_x ! i) \<and>
           \<not> fl_is_zero (if fl_is_zero (data e_x ! i) then eps_min self else data e_x ! i)"
proof -
  let ?q = "\<lparr>shape = shape e_x,
             data = map2 fl_div (map2 fl_sub (data e_x) (data e_xs))
                      (map (guard_elem (eps_min self)) (data e_x))\<rparr>"
  have len: "length (data e_xs) = length (data e_x)"
    using assms by (simp add: well_formed_def)
  have q: "nominator_quotient (eps_min self) e_x e_xs = Inr ?q"
    using assms(3-5) by (rule nominator_quotient_same_shape)
  have guard: "data (guard_zero (eps_min self) e_x) ! i =
      (if fl_is_zero (data e_x ! i) then eps_min self else data e_x ! i)"
    using assms(1,6) by (simp add: guard_zero_def guard_elem_finite)
  have elem: "data ?q ! i =
      fl_div (fl_sub (data e_x ! i) (data e_xs ! i))
             (if fl_is_zero (data e_x ! i) then eps_min self else data e_x ! i)"
    using assms(1,6) len by (simp add: guard_elem_finite)
  have nz: "\<not> fl_is_zero (if fl_is_zero (data e_x ! i) then eps_min self else data e_x ! i)"
    using assms(1,2) by (simp add: fl_is_zero_def)
  have shp: "shape ?q = shape e_x" and lq: "length (data ?q) = length (data e_x)"
    using len by simp_all
  from q shp lq guard elem nz show ?thesis by blast
qed

text \<open>The theorem at an array with a zero element, \<open>eps_min = 1 / 1024\<close>.\<close>

theorem numerator_guard_witness:
  "\<exists>q. nominator_quotient (Fin (1 / 1024))
          \<lparr>shape = [1, 2], data = [Fin 0, Fin 2]\<rparr> \<lparr>shape = [1, 2], data = [Fin 1, Fin 1]\<rparr> = Inr q \<and>
        data (guard_zero (Fin (1 / 1024)) \<lparr>shape = [1, 2], data = [Fin 0, Fin 2]\<rparr>) ! 0
          = Fin (1 / 1024) \<and>
        data q ! 0 = Fin (- 1024)"
  using numerator_guard [of "\<lparr>nr_samples = 1, eps_min = Fin (1 / 1024), multi_label = False,
      return_aggregate = False\<rparr>" "1 / 1024"
      "\<lparr>shape = [1, 2], data = [Fin 1, Fin 1]\<rparr>" "\<lparr>shape = [1, 2], data = [Fin 0, Fin 2]\<rparr>" 0]
  by (auto simp add: well_formed_def fl_is_zero_def fl_sub_def)

subsection \<open>The denominator\<close>





lemma chunk_of_difference:
  assumes "i < n"
  shows "chunks n c (map2 fl_sub (data h_x) (data h_xs)) ! i =
         map2 fl_sub (row_of c i h_x) (row_of c i h_xs)"
  using assms by (simp add: chunks_nth row_of_def take_map drop_map take_zip drop_zip)



subsection \<open>The shape of the objective\<close>

lemma chunks_numeral [simp]:
  "chunks (numeral k) m xs = take m xs # chunks (pred_numeral k) m (drop m xs)"
  by (simp add: numeral_eq_Suc)

lemma np_binop_shape:
  "broadcast_shapes (shape a) (shape b) = Some s \<Longrightarrow> \<exists>r. np_binop f a b = Inr r \<and> shape r = s"
  by (simp add: np_binop_def)

lemma norm_last_shape:
  "k \<le> ndim a \<Longrightarrow> \<exists>m. norm_last k a = Inr m \<and> shape m = take (ndim a - k) (shape a)"
  by (simp add: norm_last_def Let_def)

lemma nominator_quotient_shape:
  assumes "shape e_xs = shape e_x"
  shows "\<exists>q. nominator_quotient eps e_x e_xs = Inr q \<and> shape q = shape e_x"
proof -
  obtain d where d: "np_sub e_x e_xs = Inr d" "shape d = shape e_x"
    using np_binop_shape [of e_x e_xs "shape e_x" fl_sub] assms by (auto simp: np_sub_def)
  obtain q where q: "np_div d (guard_zero eps e_x) = Inr q" "shape q = shape e_x"
    using np_binop_shape [of d "guard_zero eps e_x" "shape e_x" fl_div] d(2)
    by (auto simp: np_div_def guard_zero_def)
  show ?thesis using d q by (simp add: nominator_quotient_def)
qed

lemma denominator_of_shape:
  assumes "shape h_x = [n, c]" "shape h_xs = [n, c]"
  shows "\<exists>d. denominator_of eps h_x h_xs = Inr d \<and> shape d = [n]"
proof -
  obtain s where s: "np_sub h_x h_xs = Inr s" "shape s = [n, c]"
    using np_binop_shape [of h_x h_xs "[n, c]" fl_sub] assms by (auto simp: np_sub_def)
  obtain m where m: "norm_last 1 s = Inr m" "shape m = [n]"
    using norm_last_shape [of 1 s] s(2) by (auto simp: ndim_def)
  show ?thesis using s(1) m by (simp add: denominator_of_def guard_zero_def)
qed

lemma norm_function_shape:
  assumes "length rest \<in> {1, 2, 3} \<or> length rest = 4 \<and> ml"
  shows "\<exists>nf. norm_function ml (Suc (length rest)) = Inr nf \<and>
           (\<forall>q. shape q = n # rest \<longrightarrow>
              (\<exists>m. nf q = Inr m \<and> shape m = (if length rest = 4 then [n, hd rest] else [n])))"
proof -
  have two: "\<exists>m. bind_err (norm_last 2 q) (norm_last 1) = Inr m \<and> shape m = take (length rest - 2) (n # rest)"
    if sq: "shape q = n # rest" and len: "3 \<le> length rest" for q
  proof -
    obtain m1 where m1: "norm_last 2 q = Inr m1" "shape m1 = take (length rest - 1) (n # rest)"
      using norm_last_shape [of 2 q] sq len by (auto simp: ndim_def)
    have nd: "ndim m1 = length rest - 1"
      using m1(2) len by (simp add: ndim_def)
    then have "1 \<le> ndim m1" using len by simp
    from norm_last_shape [OF this]
    obtain m2 where m2: "norm_last 1 m1 = Inr m2" "shape m2 = take (ndim m1 - 1) (shape m1)"
      by blast
    have "shape m2 = take (length rest - 2) (n # rest)"
      using m2(2) m1(2) len nd by (simp add: min_def numeral_2_eq_2)
    with m1(1) m2(1) show ?thesis by simp
  qed
  have one: "\<exists>m. norm_last k q = Inr m \<and> shape m = [n]"
    if sq: "shape q = n # rest" and len: "length rest = k" for q k
    using norm_last_shape [of k q] sq len by (auto simp: ndim_def)
  consider "length rest = 1" | "length rest = 2" | "length rest = 3" | "length rest = 4" "ml"
    using assms by auto
  then show ?thesis
  proof cases
    case 1
    then show ?thesis using one [of _ 1] by (simp add: norm_function_def)
  next
    case 2
    then show ?thesis using one [of _ 2] by (simp add: norm_function_def)
  next
    case 3
    then show ?thesis using two by (simp add: norm_function_def)
  next
    case 4
    from 4(1) obtain r0 r' where "rest = r0 # r'" by (cases rest) auto
    with 4 show ?thesis using two by (simp add: norm_function_def)
  qed
qed

lemma objective_succeeds:
  assumes ranks: "length rest \<in> {1, 2, 3} \<or> length rest = 4 \<and> multi_label self"
    and e: "shape e_x = n # rest" "shape e_xs = shape e_x"
    and h: "shape h_x = [n, c]" "shape h_xs = [n, c]"
  shows "\<exists>r. relative_output_stability_objective self h_x h_xs e_x e_xs = Inr r \<and>
           shape r = (if multi_label self then (if length rest = 4 then [n, hd rest] else [n, n])
                      else [n])"
proof -
  obtain nf where nf: "norm_function (multi_label self) (ndim e_x) = Inr nf"
    and nf_shape: "\<And>q. shape q = n # rest \<Longrightarrow>
           \<exists>m. nf q = Inr m \<and> shape m = (if length rest = 4 then [n, hd rest] else [n])"
    using norm_function_shape [OF ranks, of n] e(1) by (auto simp: ndim_def)
  obtain q where q: "nominator_quotient (eps_min self) e_x e_xs = Inr q" "shape q = n # rest"
    using nominator_quotient_shape [OF e(2)] e(1) by auto
  obtain nom where nom: "nf q = Inr nom"
    "shape nom = (if length rest = 4 then [n, hd rest] else [n])"
    using nf_shape [OF q(2)] by auto
  obtain d where d: "denominator_of (eps_min self) h_x h_xs = Inr d" "shape d = [n]"
    using denominator_of_shape [OF h] by auto
  have unfold: "relative_output_stability_objective self h_x h_xs e_x e_xs =
      (if multi_label self then np_div nom (expand_dims_last d) else np_div nom d)"
    using nf q(1) nom(1) d(1) by (simp add: relative_output_stability_objective_def)
  show ?thesis
  proof (cases "multi_label self")
    case True
    have "broadcast_shapes (shape nom) (shape (expand_dims_last d)) =
        Some (if length rest = 4 then [n, hd rest] else [n, n])"
      using nom(2) d(2) by (auto simp: expand_dims_last_def broadcast_shapes_def)
    from np_binop_shape [OF this, of fl_div] show ?thesis
      using True unfold by (simp add: np_div_def)
  next
    case False
    with ranks have "length rest \<noteq> 4" by auto
    then have "broadcast_shapes (shape nom) (shape d) = Some [n]"
      using nom(2) d(2) by simp
    from np_binop_shape [OF this, of fl_div] show ?thesis
      using False unfold by (simp add: np_div_def)
  qed
qed

text \<open>The definitions that evaluate the objective at a concrete input.\<close>

lemmas eval_defs =
  relative_output_stability_objective_def norm_function_def nominator_quotient_def
  denominator_of_def np_sub_def np_div_def np_binop_def broadcast_shapes_def pad_shape_def
  guard_zero_def guard_elem_def norm_last_def ndim_def l2_def fl_sum_def fl_sub_def
  fl_is_zero_def fl_of_bool_def expand_dims_last_def inf_of_sign_def Let_def

subsection \<open>The rank dispatch\<close>

text \<open>
  Claim C4, as amended. The objective returns a result (it does not raise) on explanations
  \<open>e_x\<close> and \<open>e_xs\<close> of one shape and of rank 2, 3 or 4, and also of rank 5 when the
  metric is in multi-label mode, with logits of shape \<open>[N, c]\<close> for the \<open>N\<close> samples of
  \<open>e_x\<close>. On every other rank (rank 5 outside multi-label mode included) it raises the
  \<open>UnsupportedShape\<close> error, whatever the other arguments are.
\<close>

theorem rank_dispatch:
  "((ndim e_x \<in> {2, 3, 4} \<or> ndim e_x = 5 \<and> multi_label self) \<and>
      shape e_xs = shape e_x \<and>
      shape h_x = [hd (shape e_x), c] \<and> shape h_xs = [hd (shape e_x), c]
      \<longrightarrow> (\<exists>r. relative_output_stability_objective self h_x h_xs e_x e_xs = Inr r)) \<and>
   (\<not> (ndim e_x \<in> {2, 3, 4} \<or> ndim e_x = 5 \<and> multi_label self)
      \<longrightarrow> relative_output_stability_objective self h_x h_xs e_x e_xs = Inl UnsupportedShape)"
proof (intro conjI impI)
  assume a: "(ndim e_x \<in> {2, 3, 4} \<or> ndim e_x = 5 \<and> multi_label self) \<and>
      shape e_xs = shape e_x \<and>
      shape h_x = [hd (shape e_x), c] \<and> shape h_xs = [hd (shape e_x), c]"
  then obtain n rest where s: "shape e_x = n # rest"
    by (cases "shape e_x") (auto simp: ndim_def)
  with a have ranks: "length rest \<in> {1, 2, 3} \<or> length rest = 4 \<and> multi_label self"
    by (auto simp: ndim_def)
  from a s have h: "shape h_x = [n, c]" "shape h_xs = [n, c]" by simp_all
  from a have e: "shape e_xs = shape e_x" by simp
  from objective_succeeds [OF ranks s e h]
  show "\<exists>r. relative_output_stability_objective self h_x h_xs e_x e_xs = Inr r" by blast
next
  assume "\<not> (ndim e_x \<in> {2, 3, 4} \<or> ndim e_x = 5 \<and> multi_label self)"
  then show "relative_output_stability_objective self h_x h_xs e_x e_xs = Inl UnsupportedShape"
    by (auto simp: relative_output_stability_objective_def norm_function_def)
qed

text \<open>The theorem at rank 3 (a result) and at rank 1 (the error).\<close>

theorem rank_dispatch_witness:
  "(\<exists>r. relative_output_stability_objective
          \<lparr>nr_samples = 1, eps_min = Fin (1 / 1000000), multi_label = False, return_aggregate = False\<rparr>
          \<lparr>shape = [1, 1], data = [Fin 1]\<rparr> \<lparr>shape = [1, 1], data = [Fin 0]\<rparr>
          \<lparr>shape = [1, 2, 1], data = [Fin 3, Fin 4]\<rparr>
          \<lparr>shape = [1, 2, 1], data = [Fin 0, Fin 0]\<rparr> = Inr r) \<and>
   relative_output_stability_objective
     \<lparr>nr_samples = 1, eps_min = Fin (1 / 1000000), multi_label = False, return_aggregate = False\<rparr>
     \<lparr>shape = [1, 1], data = [Fin 1]\<rparr> \<lparr>shape = [1, 1], data = [Fin 0]\<rparr>
     \<lparr>shape = [2], data = [Fin 3, Fin 4]\<rparr> \<lparr>shape = [2], data = [Fin 0, Fin 0]\<rparr>
   = Inl UnsupportedShape"
  using rank_dispatch [of "\<lparr>shape = [1, 2, 1], data = [Fin 3, Fin 4]\<rparr>"
      "\<lparr>nr_samples = 1, eps_min = Fin (1 / 1000000), multi_label = False, return_aggregate = False\<rparr>"
      "\<lparr>shape = [1, 2, 1], data = [Fin 0, Fin 0]\<rparr>"
      "\<lparr>shape = [1, 1], data = [Fin 1]\<rparr>" 1 "\<lparr>shape = [1, 1], data = [Fin 0]\<rparr>"]
    rank_dispatch [of "\<lparr>shape = [2], data = [Fin 3, Fin 4]\<rparr>"
      "\<lparr>nr_samples = 1, eps_min = Fin (1 / 1000000), multi_label = False, return_aggregate = False\<rparr>"
      "\<lparr>shape = [2], data = [Fin 0, Fin 0]\<rparr>"
      "\<lparr>shape = [1, 1], data = [Fin 1]\<rparr>" 1 "\<lparr>shape = [1, 1], data = [Fin 0]\<rparr>"]
  by (simp add: ndim_def)

text \<open>
  Claim C4 as stated fails: rank 5 is none of 2, 3 and 4, and in multi-label mode the
  objective accepts it.
\<close>

theorem rank_five_multi_label_accepted:
  "ndim \<lparr>shape = [1, 1, 1, 1, 1], data = [Fin 1]\<rparr> \<notin> {2, 3, 4} \<and>
   relative_output_stability_objective
     \<lparr>nr_samples = 1, eps_min = Fin (1 / 1000000), multi_label = True, return_aggregate = False\<rparr>
     \<lparr>shape = [1, 1], data = [Fin 1]\<rparr> \<lparr>shape = [1, 1], data = [Fin 1]\<rparr>
     \<lparr>shape = [1, 1, 1, 1, 1], data = [Fin 1]\<rparr> \<lparr>shape = [1, 1, 1, 1, 1], data = [Fin 1]\<rparr>
   = Inr \<lparr>shape = [1, 1], data = [Fin 0]\<rparr>"
  by (simp add: eval_defs)

subsection \<open>The objective where no guard is active\<close>

lemma guard_zero_inert:
  assumes "list_all (\<lambda>x. \<not> fl_is_zero x) (data a)"
  shows "guard_zero (Fin e) a = a"
proof -
  have "map (guard_elem (Fin e)) (data a) = data a"
    using assms by (intro map_idI) (auto simp: guard_elem_finite list_all_iff)
  then show ?thesis by (simp add: guard_zero_def)
qed

text \<open>
  Claim C1, as amended. When no element of \<open>e_x\<close> is zero and, for every sample, the norm
  of the sample's row of \<^verbatim>\<open>h_x - h_xs\<close> (logits of shape \<open>[n, c]\<close>) is not zero, no guard
  changes a value: the objective is the norm of the element-wise quotient
  \<^verbatim>\<open>(e_x - e_xs) / e_x\<close> divided by the norm of \<^verbatim>\<open>h_x - h_xs\<close>. \<open>eps_min\<close> is finite. Of
  the arithmetic, the proof uses only that \<open>x + 0 * eps_min\<close> is \<open>x\<close>.
\<close>

theorem objective_without_guard:
  assumes "eps_min self = Fin e"
    and "list_all (\<lambda>x. \<not> fl_is_zero x) (data e_x)"
    and "shape h_x = [n, c]" "shape h_xs = [n, c]" "well_formed h_x" "well_formed h_xs"
    and "\<forall>i<n. \<not> fl_is_zero (l2 (map2 fl_sub (row_of c i h_x) (row_of c i h_xs)))"
  shows "relative_output_stability_objective self h_x h_xs e_x e_xs =
         unguarded_objective self h_x h_xs e_x e_xs"
proof -
  have num: "nominator_quotient (eps_min self) e_x e_xs =
      bind_err (np_sub e_x e_xs) (\<lambda>d. np_div d e_x)"
    using assms(1,2) by (simp add: nominator_quotient_def guard_zero_inert)
  have sub: "np_sub h_x h_xs = Inr \<lparr>shape = [n, c], data = map2 fl_sub (data h_x) (data h_xs)\<rparr>"
    unfolding np_sub_def using assms(3-6) by (subst np_binop_same_shape) simp_all
  obtain d where d: "norm_last 1 \<lparr>shape = [n, c], data = map2 fl_sub (data h_x) (data h_xs)\<rparr> = Inr d"
    and dd: "data d = map l2 (chunks n c (map2 fl_sub (data h_x) (data h_xs)))"
    by (simp add: norm_last_def ndim_def)
  have "\<not> fl_is_zero (data d ! i)" if "i < n" for i
    using assms(7) that by (simp add: dd chunk_of_difference)
  moreover have "length (data d) = n" by (simp add: dd)
  ultimately have "list_all (\<lambda>x. \<not> fl_is_zero x) (data d)"
    by (auto simp: list_all_length)
  then have "guard_zero (eps_min self) d = d"
    using assms(1) by (simp add: guard_zero_inert)
  then have den: "denominator_of (eps_min self) h_x h_xs =
      bind_err (np_sub h_x h_xs) (norm_last 1)"
    using sub d by (simp add: denominator_of_def)
  show ?thesis
    unfolding relative_output_stability_objective_def unguarded_objective_def
    by (simp only: num den)
qed

lemma sqrt_16: "sqrt 16 = 4"
  using real_sqrt_abs [of 4] by simp

lemma sqrt_25: "sqrt 25 = 5"
  using real_sqrt_abs [of 5] by simp

text \<open>The theorem at one sample with two features.\<close>

theorem objective_without_guard_witness:
  "relative_output_stability_objective
     \<lparr>nr_samples = 1, eps_min = Fin (1 / 1000000), multi_label = False, return_aggregate = False\<rparr>
     \<lparr>shape = [1, 1], data = [Fin 1]\<rparr> \<lparr>shape = [1, 1], data = [Fin 0]\<rparr>
     \<lparr>shape = [1, 2], data = [Fin 3, Fin 4]\<rparr> \<lparr>shape = [1, 2], data = [Fin 3, Fin 0]\<rparr>
   = Inr \<lparr>shape = [1], data = [Fin 1]\<rparr>"
proof -
  let ?self = "\<lparr>nr_samples = 1, eps_min = Fin (1 / 1000000), multi_label = False,
                  return_aggregate = False\<rparr>"
  let ?h_x = "\<lparr>shape = [1, 1], data = [Fin 1]\<rparr>"
  let ?h_xs = "\<lparr>shape = [1, 1], data = [Fin 0]\<rparr>"
  let ?e_x = "\<lparr>shape = [1, 2], data = [Fin 3, Fin 4]\<rparr>"
  let ?e_xs = "\<lparr>shape = [1, 2], data = [Fin 3, Fin 0]\<rparr>"
  have "relative_output_stability_objective ?self ?h_x ?h_xs ?e_x ?e_xs =
        unguarded_objective ?self ?h_x ?h_xs ?e_x ?e_xs"
    by (rule objective_without_guard [where e = "1 / 1000000" and n = 1 and c = 1])
       (simp_all add: well_formed_def fl_is_zero_def row_of_def l2_def fl_sum_def fl_sub_def)
  also have "\<dots> = Inr \<lparr>shape = [1], data = [Fin 1]\<rparr>"
    by (simp add: unguarded_objective_def eval_defs)
  finally show ?thesis .
qed

text \<open>
  Claim C1 as stated fails: at the same input the objective is \<open>1\<close>, and the quotient of
  the norms \<^verbatim>\<open>norm(e_x - e_xs) / norm(e_x)\<close> divided by \<^verbatim>\<open>norm(h_x - h_xs)\<close> is \<open>4 / 5\<close>.
\<close>

theorem objective_not_quotient_of_norms:
  "list_all (\<lambda>x. \<not> fl_is_zero x) (data \<lparr>shape = [1, 2], data = [Fin 3, Fin 4]\<rparr>) \<and>
   \<lparr>shape = [1, 1], data = [Fin 1]\<rparr> \<noteq> \<lparr>shape = [1, 1], data = [Fin 0]\<rparr> \<and>
   relative_output_stability_objective
     \<lparr>nr_samples = 1, eps_min = Fin (1 / 1000000), multi_label = False, return_aggregate = False\<rparr>
     \<lparr>shape = [1, 1], data = [Fin 1]\<rparr> \<lparr>shape = [1, 1], data = [Fin 0]\<rparr>
     \<lparr>shape = [1, 2], data = [Fin 3, Fin 4]\<rparr> \<lparr>shape = [1, 2], data = [Fin 3, Fin 0]\<rparr>
   = Inr \<lparr>shape = [1], data = [Fin 1]\<rparr> \<and>
   claimed_objective
     \<lparr>nr_samples = 1, eps_min = Fin (1 / 1000000), multi_label = False, return_aggregate = False\<rparr>
     \<lparr>shape = [1, 1], data = [Fin 1]\<rparr> \<lparr>shape = [1, 1], data = [Fin 0]\<rparr>
     \<lparr>shape = [1, 2], data = [Fin 3, Fin 4]\<rparr> \<lparr>shape = [1, 2], data = [Fin 3, Fin 0]\<rparr>
   = Inr \<lparr>shape = [1], data = [Fin (4 / 5)]\<rparr>"
  by (simp add: claimed_objective_def eval_defs sqrt_16 sqrt_25)

subsection \<open>The loop, draw by draw\<close>

lemma assign_broadcast_shape: "assign_broadcast t v = Inr r \<Longrightarrow> shape r = t"
  by (auto simp: assign_broadcast_def Let_def split: if_splits)

lemma set_nan_shape: "set_nan changed row = Inr r \<Longrightarrow> shape r = shape row"
  by (auto simp: set_nan_def split: list.splits option.splits)

lemma draw_row_shape:
  assumes "draw_row self c model x_batch y_batch a_batch row_shape d = Inr r"
  shows "shape r = row_shape"
proof -
  from assms obtain ros r0 where
    r0: "assign_broadcast row_shape ros = Inr r0"
    and r: "(if length (draw_changed c model x_batch d) \<noteq> 0
             then set_nan (draw_changed c model x_batch d) r0 else Inr r0) = Inr r"
    by (auto simp: draw_row_def bind_err_def split: sum.splits)
  from r0 have "shape r0 = row_shape" by (rule assign_broadcast_shape)
  with r show ?thesis by (auto split: if_splits dest: set_nan_shape)
qed

lemma draw_step_row:
  assumes "batch_size \<noteq> 0" "index < length (ros_batch st)"
    and "shape (ros_batch st ! index) = row_shape"
  shows "draw_step self c model x_batch y_batch a_batch (predict c model x_batch) batch_size index st =
         bind_err (draw_row self c model x_batch y_batch a_batch row_shape index) (\<lambda>r.
           Inr \<lparr>ros_batch = (ros_batch st)[index := r],
                calls = calls st @ draw_calls c x_batch y_batch index\<rparr>)"
proof (cases "draw_objective self c model x_batch y_batch a_batch index")
  case (Inl e)
  then show ?thesis
    using assms(1) by (simp add: draw_step_def draw_row_def draw_objective_def Let_def)
next
  case (Inr ros)
  show ?thesis
  proof (cases "assign_broadcast row_shape ros")
    case (Inl e)
    then show ?thesis
      using assms Inr
      by (simp add: draw_step_def draw_row_def draw_objective_def Let_def set_row_def)
  next
    case r0: (Inr r0)
    show ?thesis
    proof (cases "length (draw_changed c model x_batch index) \<noteq> 0")
      case False
      then show ?thesis
        using assms Inr r0
        by (simp add: draw_step_def draw_row_def draw_objective_def draw_changed_def
            draw_calls_def Let_def set_row_def)
    next
      case True
      then show ?thesis
        using assms Inr r0
        by (cases "set_nan (draw_changed c model x_batch index) r0")
           (simp_all add: draw_step_def draw_row_def draw_objective_def draw_changed_def
            draw_calls_def Let_def set_row_def set_nan_at_def)
    qed
  qed
qed

lemma sampling_loop_rows:
  assumes "batch_size \<noteq> 0"
    and "\<forall>d \<in> set ds. d < length (ros_batch st) \<and>
           draw_row self c model x_batch y_batch a_batch row_shape d = Inr (R d)"
    and "\<forall>j < length (ros_batch st). shape (ros_batch st ! j) = row_shape"
  shows "sampling_loop self c model x_batch y_batch a_batch (predict c model x_batch) batch_size ds st =
         Inr \<lparr>ros_batch = fold (\<lambda>d rows. rows[d := R d]) ds (ros_batch st),
              calls = calls st @ concat (map (draw_calls c x_batch y_batch) ds)\<rparr>"
  using assms(2,3)
proof (induction ds arbitrary: st)
  case Nil
  then show ?case by simp
next
  case (Cons d ds)
  let ?st = "\<lparr>ros_batch = (ros_batch st)[d := R d],
              calls = calls st @ draw_calls c x_batch y_batch d\<rparr>"
  from Cons.prems have d: "d < length (ros_batch st)"
    and row: "draw_row self c model x_batch y_batch a_batch row_shape d = Inr (R d)"
    by simp_all
  from Cons.prems(2) d have "shape (ros_batch st ! d) = row_shape" by simp
  from draw_step_row [OF assms(1) d this, where self = self and c = c and model = model
      and x_batch = x_batch and y_batch = y_batch and a_batch = a_batch]
  have step: "draw_step self c model x_batch y_batch a_batch (predict c model x_batch) batch_size d st
      = Inr ?st"
    by (simp add: row)
  have shp: "shape (R d) = row_shape" using row by (rule draw_row_shape)
  have p1: "\<forall>d' \<in> set ds. d' < length (ros_batch ?st) \<and>
           draw_row self c model x_batch y_batch a_batch row_shape d' = Inr (R d')"
    using Cons.prems(1) by simp
  have p2: "\<forall>j < length (ros_batch ?st). shape (ros_batch ?st ! j) = row_shape"
    using Cons.prems(2) shp d by (auto simp: nth_list_update)
  from Cons.IH [OF p1 p2] step show ?case by simp
qed

lemma length_fold_update [simp]:
  "length (fold (\<lambda>d rows. rows[d := R d]) ds rows) = length rows"
  by (induction ds arbitrary: rows) simp_all

lemma nth_fold_update:
  "j < length rows \<Longrightarrow>
   fold (\<lambda>d rows. rows[d := R d]) ds rows ! j = (if j \<in> set ds then R j else rows ! j)"
  by (induction ds arbitrary: rows) (auto simp: nth_list_update)

lemma fold_update_upt:
  "length rows = n \<Longrightarrow> fold (\<lambda>d rows. rows[d := R d]) [0..<n] rows = map R [0..<n]"
  by (rule nth_equalityI) (simp_all add: nth_fold_update)

lemma sample_draws_rows:
  assumes "shape x_batch = batch_size # xs" "batch_size \<noteq> 0"
    and "prepare_output self batch_size a_batch =
           Inr (replicate (nat (nr_samples self)) (np_zeros row_shape))"
    and "\<forall>d < nat (nr_samples self).
           draw_row self c model x_batch y_batch a_batch row_shape d = Inr (R d)"
  shows "sample_draws self c model x_batch y_batch a_batch =
         Inr \<lparr>ros_batch = map R [0..<nat (nr_samples self)],
              calls = PredictBaseline x_batch #
                concat (map (draw_calls c x_batch y_batch) [0..<nat (nr_samples self)])\<rparr>"
proof -
  let ?n = "nat (nr_samples self)"
  let ?st = "\<lparr>ros_batch = replicate ?n (np_zeros row_shape), calls = [PredictBaseline x_batch]\<rparr>"
  have "sampling_loop self c model x_batch y_batch a_batch (predict c model x_batch) batch_size
          [0..<?n] ?st =
        Inr \<lparr>ros_batch = fold (\<lambda>d rows. rows[d := R d]) [0..<?n] (ros_batch ?st),
             calls = calls ?st @ concat (map (draw_calls c x_batch y_batch) [0..<?n])\<rparr>"
    using assms(4)
    by (intro sampling_loop_rows [OF assms(2), where row_shape = row_shape and R = R])
       (simp_all add: np_zeros_def)
  then show ?thesis
    using assms(1,3) by (simp add: sample_draws_def fold_update_upt)
qed

subsection \<open>The maximum over the draws\<close>

lemma fl_le_refl: "x \<noteq> NaN \<Longrightarrow> fl_le x x"
  by (cases x) simp_all

lemma fl_le_trans: "fl_le x y \<Longrightarrow> fl_le y z \<Longrightarrow> fl_le x z"
  by (cases x; cases y; cases z) simp_all

lemma fl_le_total: "x \<noteq> NaN \<Longrightarrow> y \<noteq> NaN \<Longrightarrow> fl_le x y \<or> fl_le y x"
  by (cases x; cases y) auto

lemma fl_max_NaN_left [simp]: "fl_max NaN y = NaN"
  by (simp add: fl_max_def)

lemma fl_max_NaN_right [simp]: "fl_max x NaN = NaN"
  by (simp add: fl_max_def)

lemma foldl_fl_max_NaN [simp]: "foldl fl_max NaN xs = NaN"
  by (induction xs) simp_all

lemma foldl_fl_max_contains_NaN: "NaN \<in> set xs \<Longrightarrow> foldl fl_max a xs = NaN"
  by (induction xs arbitrary: a) auto

lemma foldl_fl_max_greatest:
  assumes "a \<noteq> NaN" "NaN \<notin> set xs"
  shows "foldl fl_max a xs \<in> set (a # xs) \<and> (\<forall>v \<in> set (a # xs). fl_le v (foldl fl_max a xs))"
  using assms
proof (induction xs arbitrary: a)
  case Nil
  then show ?case by (simp add: fl_le_refl)
next
  case (Cons x xs)
  then have x: "x \<noteq> NaN" and xs: "NaN \<notin> set xs" by auto
  let ?m = "fl_max a x"
  have m: "?m \<noteq> NaN" "?m = a \<or> ?m = x" "fl_le a ?m" "fl_le x ?m"
    using Cons.prems(1) x fl_le_total [of a x] by (auto simp: fl_max_def fl_le_refl)
  from Cons.IH [OF m(1) xs]
  have ih: "foldl fl_max ?m xs \<in> set (?m # xs)" "\<forall>v \<in> set (?m # xs). fl_le v (foldl fl_max ?m xs)"
    by simp_all
  have "fl_le ?m (foldl fl_max ?m xs)" using ih(2) by simp
  then have "fl_le a (foldl fl_max ?m xs)" "fl_le x (foldl fl_max ?m xs)"
    using m(3,4) by (blast intro: fl_le_trans)+
  moreover have "foldl fl_max ?m xs \<in> set (a # x # xs)" using ih(1) m(2) by auto
  ultimately show ?case using ih(2) by simp
qed

lemma np_max_list_NaN: "NaN \<in> set xs \<Longrightarrow> np_max_list xs = NaN"
  by (cases xs) (auto simp: np_max_list_def foldl_fl_max_contains_NaN)

lemma np_max_list_greatest:
  assumes "xs \<noteq> []" "NaN \<notin> set xs"
  shows "np_max_list xs \<in> set xs \<and> (\<forall>v \<in> set xs. fl_le v (np_max_list xs))"
proof -
  from assms(1) obtain a ys where xs: "xs = a # ys" by (cases xs) auto
  with assms(2) have "a \<noteq> NaN" "NaN \<notin> set ys" by auto
  from foldl_fl_max_greatest [OF this] show ?thesis by (simp add: xs np_max_list_def)
qed

lemma foldl_map2_fl_max_length:
  "\<forall>r \<in> set rs. length (data r) = length acc \<Longrightarrow>
   length (foldl (\<lambda>acc row. map2 fl_max acc (data row)) acc rs) = length acc"
  by (induction rs arbitrary: acc) simp_all

lemma foldl_map2_fl_max_nth:
  "\<forall>r \<in> set rs. length (data r) = length acc \<Longrightarrow> i < length acc \<Longrightarrow>
   foldl (\<lambda>acc row. map2 fl_max acc (data row)) acc rs ! i =
   foldl fl_max (acc ! i) (map (\<lambda>r. data r ! i) rs)"
  by (induction rs arbitrary: acc) simp_all

lemma np_max_axis0_column:
  assumes "rows \<noteq> []" "\<forall>r \<in> set rows. shape r = s \<and> length (data r) = n"
  shows "\<exists>result. np_max_axis0 rows = Inr result \<and> shape result = s \<and> length (data result) = n \<and>
           (\<forall>i < n. data result ! i = np_max_list (map (\<lambda>r. data r ! i) rows))"
proof -
  from assms(1) obtain r rs where rows: "rows = r # rs" by (cases rows) auto
  let ?res = "r\<lparr>data := foldl (\<lambda>acc row. map2 fl_max acc (data row)) (data r) rs\<rparr>"
  have same: "\<forall>r' \<in> set rs. length (data r') = length (data r)"
    using assms(2) rows by simp
  have len: "length (data r) = n" using assms(2) rows by simp
  have "np_max_axis0 rows = Inr ?res" by (simp add: np_max_axis0_def rows)
  moreover have "shape ?res = s" using assms(2) rows by simp
  moreover have "length (data ?res) = n"
    using foldl_map2_fl_max_length [OF same] len by simp
  moreover have "data ?res ! i = np_max_list (map (\<lambda>r. data r ! i) rows)" if "i < n" for i
    using foldl_map2_fl_max_nth [OF same, of i] that len by (simp add: rows np_max_list_def)
  ultimately show ?thesis by blast
qed

lemma np_max_axis0_single: "np_max_axis0 [r] = Inr r"
  by (simp add: np_max_axis0_def)

subsection \<open>The rows of the draw matrix\<close>

lemma strip_leading_ones_short: "length s \<le> n \<Longrightarrow> strip_leading_ones n s = s"
  by (cases s) simp_all

lemma assign_broadcast_same:
  assumes "shape v = t" "well_formed v"
  shows "assign_broadcast t v = Inr v"
  using assms
  by (simp add: assign_broadcast_def strip_leading_ones_short well_formed_def broadcast_data_same)

lemma those_norm_index:
  "list_all (\<lambda>i. 0 \<le> i \<and> i < int n) changed \<Longrightarrow>
   those (map (norm_index n) changed) = Some (map nat changed)"
  by (induction changed) (simp_all add: norm_index_def)

lemma set_nan_in_range:
  assumes "shape row = n # rest" "list_all (\<lambda>i. 0 \<le> i \<and> i < int n) changed"
  shows "set_nan changed row = Inr (nan_marked rest changed row)"
proof -
  have "k \<in> set (map nat changed) \<longleftrightarrow> int k \<in> set changed" for k
  proof
    assume "k \<in> set (map nat changed)"
    then obtain i where "i \<in> set changed" "k = nat i" by auto
    moreover from this assms(2) have "0 \<le> i" by (auto simp: list_all_iff)
    ultimately show "int k \<in> set changed" by simp
  next
    assume "int k \<in> set changed"
    then have "nat (int k) \<in> nat ` set changed" by (rule imageI)
    then show "k \<in> set (map nat changed)" by simp
  qed
  then show ?thesis
    using assms by (simp add: set_nan_def those_norm_index nan_marked_def)
qed

lemma nan_marked_empty: "nan_marked rest [] ros = ros"
  by (simp add: nan_marked_def case_prod_unfold)

lemma nan_marked_nth:
  "k < length (data ros) \<Longrightarrow>
   data (nan_marked rest changed ros) ! k =
     (if int (k div prod_list rest) \<in> set changed then NaN else data ros ! k)"
  by (simp add: nan_marked_def nth_enumerate_eq)

lemma draw_row_marked:
  assumes "draw_objective self c model x_batch y_batch a_batch d = Inr ros"
    and "shape ros = n # rest" "well_formed ros"
    and "list_all (\<lambda>i. 0 \<le> i \<and> i < int n) (draw_changed c model x_batch d)"
  shows "draw_row self c model x_batch y_batch a_batch (n # rest) d =
         Inr (nan_marked rest (draw_changed c model x_batch d) ros)"
proof (cases "draw_changed c model x_batch d = []")
  case True
  then show ?thesis
    using assms by (simp add: draw_row_def assign_broadcast_same nan_marked_empty)
next
  case False
  then show ?thesis
    using assms by (simp add: draw_row_def assign_broadcast_same set_nan_in_range)
qed

lemma prepare_output_rows:
  assumes "shape x_batch = n # xs" "0 \<le> nr_samples self"
    and "multi_label self \<longrightarrow> 2 \<le> ndim a_batch"
  shows "prepare_output self n a_batch =
         Inr (replicate (nat (nr_samples self)) (np_zeros (row_shape_of self x_batch a_batch)))"
proof (cases "multi_label self")
  case True
  with assms(3) obtain a0 a1 as where "shape a_batch = a0 # a1 # as"
    by (cases "shape a_batch"; cases "tl (shape a_batch)") (auto simp: ndim_def)
  with True assms(2) show ?thesis by (simp add: prepare_output_def row_shape_of_def)
next
  case False
  with assms(1,2) show ?thesis by (simp add: prepare_output_def row_shape_of_def)
qed

lemma sample_draws_marked:
  assumes x: "shape x_batch = n # xs" "n \<noteq> 0"
    and nr: "0 \<le> nr_samples self"
    and ml: "multi_label self \<longrightarrow> 2 \<le> ndim a_batch"
    and ok: "draws_succeed self c model x_batch y_batch a_batch ros"
  shows "sample_draws self c model x_batch y_batch a_batch =
         Inr \<lparr>ros_batch =
                map (\<lambda>d. nan_marked (tl (row_shape_of self x_batch a_batch))
                           (draw_changed c model x_batch d) (ros d))
                    [0..<nat (nr_samples self)],
              calls = PredictBaseline x_batch #
                concat (map (draw_calls c x_batch y_batch) [0..<nat (nr_samples self)])\<rparr>"
proof -
  let ?rs = "row_shape_of self x_batch a_batch"
  obtain m rest where rs: "?rs = m # rest"
  proof (cases "multi_label self")
    case True
    with ml obtain a0 a1 as where "shape a_batch = a0 # a1 # as"
      by (cases "shape a_batch"; cases "tl (shape a_batch)") (auto simp: ndim_def)
    with True that show ?thesis by (simp add: row_shape_of_def)
  next
    case False
    with x that show ?thesis by (simp add: row_shape_of_def)
  qed
  have rows: "\<forall>d < nat (nr_samples self).
      draw_row self c model x_batch y_batch a_batch ?rs d =
      Inr (nan_marked (tl ?rs) (draw_changed c model x_batch d) (ros d))"
  proof (intro allI impI)
    fix d assume "d < nat (nr_samples self)"
    with ok have o: "draw_objective self c model x_batch y_batch a_batch d = Inr (ros d)"
      and s: "shape (ros d) = m # rest" and w: "well_formed (ros d)"
      and ch: "list_all (\<lambda>i. 0 \<le> i \<and> i < int m) (draw_changed c model x_batch d)"
      by (simp_all add: draws_succeed_def rs)
    from draw_row_marked [OF o s w ch]
    show "draw_row self c model x_batch y_batch a_batch ?rs d =
      Inr (nan_marked (tl ?rs) (draw_changed c model x_batch d) (ros d))"
      by (simp add: rs)
  qed
  from sample_draws_rows [OF x prepare_output_rows [OF x(1) nr ml] rows]
  show ?thesis .
qed

lemma nan_marked_shape [simp]: "shape (nan_marked rest changed ros) = shape ros"
  by (simp add: nan_marked_def)

lemma nan_marked_length [simp]: "length (data (nan_marked rest changed ros)) = length (data ros)"
  by (simp add: nan_marked_def)

lemma row_shape_of_Cons:
  assumes "shape x_batch = n # xs" "multi_label self \<longrightarrow> 2 \<le> ndim a_batch"
  shows "\<exists>m rest. row_shape_of self x_batch a_batch = m # rest"
proof (cases "multi_label self")
  case True
  with assms(2) obtain a0 a1 as where "shape a_batch = a0 # a1 # as"
    by (cases "shape a_batch"; cases "tl (shape a_batch)") (auto simp: ndim_def)
  with True show ?thesis by (simp add: row_shape_of_def)
next
  case False
  with assms(1) show ?thesis by (simp add: row_shape_of_def)
qed

text \<open>
  Claim C5. When every draw runs through, the loop ends with the full draw matrix, and in
  the row of each draw every element of a sample that the prediction-change detector
  reported for that draw is \<open>NaN\<close>, whatever the objective computed for it; every other
  element is the value of the objective. The condition ends neither the loop nor (in
  single-label mode, with at least one draw) the batch: \<^verbatim>\<open>evaluate_batch\<close> returns.
\<close>

theorem prediction_change_marks_nan:
  assumes "shape x_batch = n # xs" "n \<noteq> 0"
    and "0 \<le> nr_samples self"
    and "multi_label self \<longrightarrow> 2 \<le> ndim a_batch"
    and "draws_succeed self c model x_batch y_batch a_batch ros"
  shows "\<exists>st. sample_draws self c model x_batch y_batch a_batch = Inr st \<and>
           length (ros_batch st) = nat (nr_samples self) \<and>
           (\<forall>d < nat (nr_samples self).
              shape (ros_batch st ! d) = row_shape_of self x_batch a_batch \<and>
              (\<forall>k < length (data (ros d)).
                 data (ros_batch st ! d) ! k =
                   (if int (k div prod_list (tl (row_shape_of self x_batch a_batch)))
                         \<in> set (draw_changed c model x_batch d)
                    then NaN else data (ros d) ! k))) \<and>
           (1 \<le> nr_samples self \<and> \<not> multi_label self \<longrightarrow>
              (\<exists>result log.
                 evaluate_batch self c model x_batch y_batch a_batch = Inr (result, log)))"
proof -
  let ?n = "nat (nr_samples self)"
  let ?rs = "row_shape_of self x_batch a_batch"
  let ?row = "\<lambda>d. nan_marked (tl ?rs) (draw_changed c model x_batch d) (ros d)"
  let ?st = "\<lparr>ros_batch = map ?row [0..<?n],
              calls = PredictBaseline x_batch #
                concat (map (draw_calls c x_batch y_batch) [0..<?n])\<rparr>"
  have st: "sample_draws self c model x_batch y_batch a_batch = Inr ?st"
    using assms by (rule sample_draws_marked)
  have len: "length (ros_batch ?st) = ?n" by simp
  have rows: "shape (ros_batch ?st ! d) = ?rs \<and>
      (\<forall>k < length (data (ros d)).
         data (ros_batch ?st ! d) ! k =
           (if int (k div prod_list (tl ?rs)) \<in> set (draw_changed c model x_batch d)
            then NaN else data (ros d) ! k))"
    if "d < ?n" for d
    using that assms(5) by (simp add: nan_marked_nth draws_succeed_def)
  have ev: "\<exists>result log. evaluate_batch self c model x_batch y_batch a_batch = Inr (result, log)"
    if "1 \<le> nr_samples self" "\<not> multi_label self"
  proof -
    from that(1) have "map ?row [0..<?n] \<noteq> []" by simp
    then obtain r rs where "map ?row [0..<?n] = r # rs" by (cases "map ?row [0..<?n]") auto
    then show ?thesis
      using st that(2) by (simp add: evaluate_batch_def reducer_def np_max_axis0_def)
  qed
  from st len rows ev show ?thesis by blast
qed

subsection \<open>A scenario\<close>

lemma sqrt_9: "sqrt 9 = 3"
  using real_sqrt_abs [of 3] by simp

lemma sqrt_64: "sqrt 64 = 8"
  using real_sqrt_abs [of 8] by simp

lemmas stub_defs = stub_x_batch_def stub_square_def stub_scale_def stub_collaborators_def
  stub_metric_def stub_ros_def

lemma stub_objective_0:
  "draw_objective stub_metric stub_collaborators () stub_x_batch (Labels [0, 1])
     (stub_square stub_x_batch) 0 = Inr (stub_ros 0)"
  by (simp add: draw_objective_def stub_defs eval_defs sqrt_9 sqrt_16)

lemma stub_objective_1:
  "draw_objective stub_metric stub_collaborators () stub_x_batch (Labels [0, 1])
     (stub_square stub_x_batch) (Suc 0) = Inr (stub_ros (Suc 0))"
  by (simp add: draw_objective_def stub_defs eval_defs sqrt_64 sqrt_16)

lemma stub_draws_succeed:
  "draws_succeed stub_metric stub_collaborators () stub_x_batch (Labels [0, 1])
     (stub_square stub_x_batch) stub_ros"
proof -
  have "d < nat (nr_samples stub_metric) \<longleftrightarrow> d = 0 \<or> d = Suc 0" for d
    by (auto simp: stub_metric_def)
  moreover have "row_shape_of stub_metric stub_x_batch (stub_square stub_x_batch) = [2]"
    by (simp add: row_shape_of_def stub_defs)
  moreover have "well_formed (stub_ros 0)" "well_formed (stub_ros (Suc 0))"
    "shape (stub_ros 0) = [2]" "shape (stub_ros (Suc 0)) = [2]"
    by (simp_all add: stub_ros_def well_formed_def)
  moreover have "draw_changed stub_collaborators () stub_x_batch 0 = []"
    "draw_changed stub_collaborators () stub_x_batch (Suc 0) = [0]"
    by (simp_all add: draw_changed_def stub_defs)
  ultimately show ?thesis
    using stub_objective_0 stub_objective_1 by (auto simp: draws_succeed_def)
qed

text \<open>The theorem in the scenario: sample \<open>0\<close> of draw \<open>1\<close> is \<open>NaN\<close>.\<close>

theorem prediction_change_marks_nan_witness:
  "\<exists>st. sample_draws stub_metric stub_collaborators () stub_x_batch (Labels [0, 1])
          (stub_square stub_x_batch) = Inr st \<and>
        length (ros_batch st) = 2 \<and>
        draw_changed stub_collaborators () stub_x_batch 1 = [0] \<and>
        data (ros_batch st ! 1) ! 0 = NaN \<and> data (ros_batch st ! 1) ! 1 = Fin 2 \<and>
        data (ros_batch st ! 0) ! 0 = Fin 3"
proof -
  have x: "shape stub_x_batch = 2 # [1]" "(2::nat) \<noteq> 0"
    and nr: "0 \<le> nr_samples stub_metric"
    and ml: "multi_label stub_metric \<longrightarrow> 2 \<le> ndim (stub_square stub_x_batch)"
    by (simp_all add: stub_defs)
  from prediction_change_marks_nan [OF x nr ml stub_draws_succeed]
  obtain st where st: "sample_draws stub_metric stub_collaborators () stub_x_batch (Labels [0, 1])
        (stub_square stub_x_batch) = Inr st"
    and len: "length (ros_batch st) = nat (nr_samples stub_metric)"
    and rows: "\<forall>d < nat (nr_samples stub_metric).
        \<forall>k < length (data (stub_ros d)).
          data (ros_batch st ! d) ! k =
            (if int (k div prod_list (tl (row_shape_of stub_metric stub_x_batch
                  (stub_square stub_x_batch))))
                  \<in> set (draw_changed stub_collaborators () stub_x_batch d)
             then NaN else data (stub_ros d) ! k)"
    by blast
  have ch: "draw_changed stub_collaborators () stub_x_batch 0 = []"
    "draw_changed stub_collaborators () stub_x_batch (Suc 0) = [0]"
    by (simp_all add: draw_changed_def stub_defs)
  have rs: "tl (row_shape_of stub_metric stub_x_batch (stub_square stub_x_batch)) = []"
    by (simp add: row_shape_of_def stub_defs)
  note rows' = rows [unfolded rs, rule_format]
  have "data (ros_batch st ! 1) ! 0 = NaN"
    using rows' [of 1 0] by (simp add: ch stub_metric_def stub_ros_def)
  moreover have "data (ros_batch st ! 1) ! 1 = Fin 2"
    using rows' [of 1 1] by (simp add: ch stub_metric_def stub_ros_def)
  moreover have "data (ros_batch st ! 0) ! 0 = Fin 3"
    using rows' [of 0 0] by (simp add: ch stub_metric_def stub_ros_def)
  ultimately show ?thesis using st len ch(2) by (simp add: stub_metric_def)
qed

subsection \<open>The reduction over the draws\<close>

lemma draws_succeed_rows:
  assumes "shape x_batch = n # xs" "multi_label self \<longrightarrow> 2 \<le> ndim a_batch"
    and "draws_succeed self c model x_batch y_batch a_batch ros"
  shows "\<forall>r \<in> set (map (\<lambda>d. nan_marked (tl (row_shape_of self x_batch a_batch))
                                (draw_changed c model x_batch d) (ros d))
                       [0..<nat (nr_samples self)]).
           shape r = row_shape_of self x_batch a_batch \<and>
           length (data r) = prod_list (row_shape_of self x_batch a_batch)"
  using assms(3) by (auto simp: draws_succeed_def well_formed_def)

text \<open>
  Claim C6. When every draw runs through, the reducer takes \<^verbatim>\<open>np.max\<close> over the rows of the
  draw matrix (its axis 0): each element of the reduced result is \<^verbatim>\<open>np.max\<close> of the values
  at its place in the rows and, where none of them is \<open>NaN\<close>, one of these values and at
  least each of them. With \<open>nr_samples = 1\<close> the reduced result is the row of the single
  draw. In single-label mode without aggregation \<^verbatim>\<open>evaluate_batch\<close> returns the reduced
  result, one score for each sample.
\<close>

theorem reducer_takes_maximum:
  assumes "shape x_batch = n # xs" "n \<noteq> 0"
    and "1 \<le> nr_samples self"
    and "multi_label self \<longrightarrow> 2 \<le> ndim a_batch"
    and "draws_succeed self c model x_batch y_batch a_batch ros"
  shows "\<exists>st result.
           sample_draws self c model x_batch y_batch a_batch = Inr st \<and>
           length (ros_batch st) = nat (nr_samples self) \<and>
           np_max_axis0 (ros_batch st) = Inr result \<and>
           shape result = row_shape_of self x_batch a_batch \<and>
           length (data result) = prod_list (row_shape_of self x_batch a_batch) \<and>
           (\<forall>k < prod_list (row_shape_of self x_batch a_batch).
              data result ! k = np_max_list (map (\<lambda>row. data row ! k) (ros_batch st)) \<and>
              (NaN \<notin> set (map (\<lambda>row. data row ! k) (ros_batch st)) \<longrightarrow>
                 data result ! k \<in> set (map (\<lambda>row. data row ! k) (ros_batch st)) \<and>
                 (\<forall>v \<in> set (map (\<lambda>row. data row ! k) (ros_batch st)).
                    fl_le v (data result ! k)))) \<and>
           (nr_samples self = 1 \<longrightarrow> result = ros_batch st ! 0) \<and>
           (\<not> multi_label self \<and> \<not> return_aggregate self \<longrightarrow>
              evaluate_batch self c model x_batch y_batch a_batch = Inr (ResArray result, calls st) \<and>
              shape result = [n])"
proof -
  let ?n = "nat (nr_samples self)"
  let ?rs = "row_shape_of self x_batch a_batch"
  let ?row = "\<lambda>d. nan_marked (tl ?rs) (draw_changed c model x_batch d) (ros d)"
  let ?rows = "map ?row [0..<?n]"
  let ?st = "\<lparr>ros_batch = ?rows,
              calls = PredictBaseline x_batch #
                concat (map (draw_calls c x_batch y_batch) [0..<?n])\<rparr>"
  have nr: "0 \<le> nr_samples self" using assms(3) by simp
  have st: "sample_draws self c model x_batch y_batch a_batch = Inr ?st"
    using assms(1,2) nr assms(4,5) by (rule sample_draws_marked)
  have rows: "\<forall>r \<in> set ?rows. shape r = ?rs \<and> length (data r) = prod_list ?rs"
    using draws_succeed_rows [OF assms(1) assms(4) assms(5)] .
  have ne: "?rows \<noteq> []" using assms(3) by simp
  from np_max_axis0_column [OF ne rows]
  obtain result where res: "np_max_axis0 ?rows = Inr result" "shape result = ?rs"
    "length (data result) = prod_list ?rs"
    and col: "\<forall>k < prod_list ?rs. data result ! k = np_max_list (map (\<lambda>r. data r ! k) ?rows)"
    by blast
  have ev: "evaluate_batch self c model x_batch y_batch a_batch = Inr (ResArray result, calls ?st) \<and>
      shape result = [n]"
    if "\<not> multi_label self" "\<not> return_aggregate self"
    using st res(1,2) that assms(1) by (simp add: evaluate_batch_def reducer_def row_shape_of_def)
  have great: "data result ! k \<in> set (map (\<lambda>row. data row ! k) ?rows) \<and>
      (\<forall>v \<in> set (map (\<lambda>row. data row ! k) ?rows). fl_le v (data result ! k))"
    if "k < prod_list ?rs" "NaN \<notin> set (map (\<lambda>row. data row ! k) ?rows)" for k
  proof -
    have "map (\<lambda>row. data row ! k) ?rows \<noteq> []" using ne by simp
    from np_max_list_greatest [OF this that(2)] col that(1) show ?thesis by simp
  qed
  have one: "result = ros_batch ?st ! 0" if "nr_samples self = 1"
  proof -
    from that have "?rows = [?row 0]" by simp
    with res(1) show ?thesis by (simp add: np_max_axis0_single)
  qed
  have len: "length (ros_batch ?st) = ?n" by simp
  have sel: "ros_batch ?st = ?rows" by simp
  have res': "np_max_axis0 (ros_batch ?st) = Inr result" using res(1) by simp
  show ?thesis
    apply (rule exI [of _ ?st], rule exI [of _ result])
    apply (intro conjI)
           apply (rule st)
          apply (rule len)
         apply (rule res')
        apply (rule res(2))
       apply (rule res(3))
      apply (unfold sel)
      apply (intro allI impI conjI)
        apply (simp add: col del: map_map)
    using great apply blast
    using great apply blast
    using one apply simp
    using ev apply simp
    done
qed

lemma stub_changed:
  "draw_changed stub_collaborators () stub_x_batch 0 = []"
  "draw_changed stub_collaborators () stub_x_batch (Suc 0) = [0]"
  by (simp_all add: draw_changed_def stub_defs)

lemma stub_row_shape: "row_shape_of stub_metric stub_x_batch (stub_square stub_x_batch) = [2]"
  by (simp add: row_shape_of_def stub_defs)

lemma stub_sample_draws:
  "sample_draws stub_metric stub_collaborators () stub_x_batch (Labels [0, 1])
     (stub_square stub_x_batch) =
   Inr \<lparr>ros_batch = [\<lparr>shape = [2], data = [Fin 3, Fin (3 / 2)]\<rparr>,
                     \<lparr>shape = [2], data = [NaN, Fin 2]\<rparr>],
        calls = PredictBaseline stub_x_batch #
          draw_calls stub_collaborators stub_x_batch (Labels [0, 1]) 0 @
          draw_calls stub_collaborators stub_x_batch (Labels [0, 1]) 1\<rparr>"
proof -
  have x: "shape stub_x_batch = 2 # [1]" "(2::nat) \<noteq> 0"
    and nr: "0 \<le> nr_samples stub_metric"
    and ml: "multi_label stub_metric \<longrightarrow> 2 \<le> ndim (stub_square stub_x_batch)"
    by (simp_all add: stub_defs)
  have n: "nat (nr_samples stub_metric) = Suc (Suc 0)" by (simp add: stub_metric_def)
  show ?thesis
    unfolding sample_draws_marked [OF x nr ml stub_draws_succeed] stub_row_shape n
    by (simp add: stub_changed nan_marked_def stub_ros_def enumerate_eq_zip)
qed

text \<open>The theorem in the scenario, with two draws and with one.\<close>

theorem reducer_takes_maximum_witness:
  "(\<exists>result trace.
      evaluate_batch stub_metric stub_collaborators () stub_x_batch (Labels [0, 1])
        (stub_square stub_x_batch) = Inr (ResArray result, trace) \<and>
      data result ! 1 = Fin 2) \<and>
   (\<exists>trace.
      evaluate_batch (stub_metric\<lparr>nr_samples := 1\<rparr>) stub_collaborators () stub_x_batch
        (Labels [0, 1]) (stub_square stub_x_batch) = Inr (ResArray (stub_ros 0), trace))"
proof
  have x: "shape stub_x_batch = 2 # [1]" "(2::nat) \<noteq> 0"
    and nr: "1 \<le> nr_samples stub_metric"
    and ml: "multi_label stub_metric \<longrightarrow> 2 \<le> ndim (stub_square stub_x_batch)"
    and single: "\<not> multi_label stub_metric \<and> \<not> return_aggregate stub_metric"
    by (simp_all add: stub_defs)
  from reducer_takes_maximum [OF x nr ml stub_draws_succeed]
  show "\<exists>result trace.
      evaluate_batch stub_metric stub_collaborators () stub_x_batch (Labels [0, 1])
        (stub_square stub_x_batch) = Inr (ResArray result, trace) \<and>
      data result ! 1 = Fin 2"
  proof (elim exE conjE, goal_cases)
    case (1 st result)
    from 1(1) have rows: "ros_batch st = [\<lparr>shape = [2], data = [Fin 3, Fin (3 / 2)]\<rparr>,
                     \<lparr>shape = [2], data = [NaN, Fin 2]\<rparr>]"
      unfolding stub_sample_draws by auto
    have "data result ! 1 = Fin 2"
      using 1(6) [unfolded stub_row_shape, rule_format, of 1]
      by (simp add: rows np_max_list_def fl_max_def)
    moreover have "evaluate_batch stub_metric stub_collaborators () stub_x_batch (Labels [0, 1])
        (stub_square stub_x_batch) = Inr (ResArray result, calls st)"
      using 1(8) single by simp
    ultimately show ?case by blast
  qed
next
  let ?self = "stub_metric\<lparr>nr_samples := 1\<rparr>"
  have x: "shape stub_x_batch = 2 # [1]" "(2::nat) \<noteq> 0"
    and nr: "1 \<le> nr_samples ?self"
    and ml: "multi_label ?self \<longrightarrow> 2 \<le> ndim (stub_square stub_x_batch)"
    and single: "\<not> multi_label ?self \<and> \<not> return_aggregate ?self"
    by (simp_all add: stub_defs)
  have obj: "draw_objective ?self stub_collaborators () stub_x_batch (Labels [0, 1])
     (stub_square stub_x_batch) 0 = Inr (stub_ros 0)"
    using stub_objective_0
    by (simp add: draw_objective_def relative_output_stability_objective_def stub_metric_def)
  have ok: "draws_succeed ?self stub_collaborators () stub_x_batch (Labels [0, 1])
     (stub_square stub_x_batch) stub_ros"
    using obj stub_changed(1) stub_row_shape
    by (simp add: draws_succeed_def row_shape_of_def stub_ros_def well_formed_def)
  have nr0: "0 \<le> nr_samples ?self" by simp
  from reducer_takes_maximum [OF x nr ml ok]
  show "\<exists>trace.
      evaluate_batch ?self stub_collaborators () stub_x_batch
        (Labels [0, 1]) (stub_square stub_x_batch) = Inr (ResArray (stub_ros 0), trace)"
  proof (elim exE conjE, goal_cases)
    case (1 st result)
    have "ros_batch st ! 0 = stub_ros 0"
      using 1(1) unfolding sample_draws_marked [OF x nr0 ml ok]
      by (auto simp: stub_changed nan_marked_empty)
    moreover have "result = ros_batch st ! 0" using 1(7) by simp
    moreover have "evaluate_batch ?self stub_collaborators () stub_x_batch (Labels [0, 1])
        (stub_square stub_x_batch) = Inr (ResArray result, calls st)"
      using 1(8) single by simp
    ultimately show ?case by auto
  qed
qed

subsection \<open>NaN in the reduction\<close>

lemma collect_Inr:
  "collect rs = Inr vs \<Longrightarrow> length vs = length rs \<and> (\<forall>k < length rs. rs ! k = Inr (vs ! k))"
proof (induction rs arbitrary: vs)
  case Nil
  then show ?case by simp
next
  case (Cons r rs)
  from Cons.prems obtain v vs' where r: "r = Inr v" and c: "collect rs = Inr vs'"
    and vs: "vs = v # vs'"
    by (auto simp: bind_err_def split: sum.splits)
  from Cons.IH [OF c] have "length vs' = length rs" "\<forall>k < length rs. rs ! k = Inr (vs' ! k)"
    by simp_all
  then show ?case using r vs by (auto simp: nth_Cons split: nat.splits)
qed

lemma norm_index_less: "norm_index l j = Some j' \<Longrightarrow> j' < l"
  by (auto simp: norm_index_def split: if_splits)

lemma get2_Inr:
  assumes "get2 result i label = Inr v" "shape result = [a0, a1]"
  shows "\<exists>j' < a1. i < a0 \<and> norm_index a1 label = Some j' \<and> v = data result ! (i * a1 + j')"
  using assms
  by (auto simp: get2_def split: if_splits option.splits dest: norm_index_less)

lemma reduced_nan:
  assumes x: "shape x_batch = n # xs" "n \<noteq> 0"
    and nr: "1 \<le> nr_samples self"
    and ml: "multi_label self \<longrightarrow> 2 \<le> ndim a_batch"
    and ok: "draws_succeed self c model x_batch y_batch a_batch ros"
    and d: "d < nat (nr_samples self)"
    and i: "int i \<in> set (draw_changed c model x_batch d)"
  shows "\<exists>st result.
           sample_draws self c model x_batch y_batch a_batch = Inr st \<and>
           np_max_axis0 (ros_batch st) = Inr result \<and>
           shape result = row_shape_of self x_batch a_batch \<and>
           (\<forall>k < prod_list (row_shape_of self x_batch a_batch).
              k div prod_list (tl (row_shape_of self x_batch a_batch)) = i \<longrightarrow>
              data result ! k = NaN)"
proof -
  let ?n = "nat (nr_samples self)"
  let ?rs = "row_shape_of self x_batch a_batch"
  let ?row = "\<lambda>d. nan_marked (tl ?rs) (draw_changed c model x_batch d) (ros d)"
  let ?rows = "map ?row [0..<?n]"
  let ?st = "\<lparr>ros_batch = ?rows,
              calls = PredictBaseline x_batch #
                concat (map (draw_calls c x_batch y_batch) [0..<?n])\<rparr>"
  have nr0: "0 \<le> nr_samples self" using nr by simp
  have st: "sample_draws self c model x_batch y_batch a_batch = Inr ?st"
    using x nr0 ml ok by (rule sample_draws_marked)
  have rows: "\<forall>r \<in> set ?rows. shape r = ?rs \<and> length (data r) = prod_list ?rs"
    using draws_succeed_rows [OF x(1) ml ok] .
  have ne: "?rows \<noteq> []" using nr by simp
  from np_max_axis0_column [OF ne rows]
  obtain result where res: "np_max_axis0 ?rows = Inr result" "shape result = ?rs"
    and col: "\<forall>k < prod_list ?rs. data result ! k = np_max_list (map (\<lambda>r. data r ! k) ?rows)"
    by blast
  have "data result ! k = NaN" if k: "k < prod_list ?rs" "k div prod_list (tl ?rs) = i" for k
  proof -
    from ok d have "well_formed (ros d)" "shape (ros d) = ?rs"
      by (simp_all add: draws_succeed_def)
    then have "k < length (data (ros d))" using k(1) by (simp add: well_formed_def)
    then have "data (?row d) ! k = NaN"
      using k(2) i by (simp add: nan_marked_nth)
    moreover have "?row d \<in> set ?rows" using d by simp
    ultimately have "NaN \<in> set (map (\<lambda>r. data r ! k) ?rows)"
      by (metis (no_types, lifting) image_eqI set_map)
    then have "np_max_list (map (\<lambda>r. data r ! k) ?rows) = NaN" by (rule np_max_list_NaN)
    with col k(1) show ?thesis by simp
  qed
  with st res show ?thesis by (intro exI [of _ ?st] exI [of _ result]) simp
qed

text \<open>
  Claim C10. When every draw runs through and the prediction-change detector reports the
  sample \<open>i\<close> in some draw \<open>d\<close>, the final score of the sample is \<open>NaN\<close>: the element \<open>i\<close> of
  the array \<^verbatim>\<open>evaluate_batch\<close> returns in single-label mode, and every score in the list
  of the sample in multi-label mode. The maximum over the draws does not skip \<open>NaN\<close>.
\<close>

theorem nan_propagates:
  assumes "shape x_batch = n # xs" "n \<noteq> 0"
    and "1 \<le> nr_samples self"
    and "multi_label self \<longrightarrow> 2 \<le> ndim a_batch"
    and "\<not> return_aggregate self"
    and "draws_succeed self c model x_batch y_batch a_batch ros"
    and "d < nat (nr_samples self)"
    and "int i \<in> set (draw_changed c model x_batch d)"
  shows "(\<not> multi_label self \<longrightarrow>
           (\<exists>result log.
              evaluate_batch self c model x_batch y_batch a_batch = Inr (ResArray result, log) \<and>
              data result ! i = NaN)) \<and>
         (multi_label self \<longrightarrow>
           (\<forall>lists log.
              evaluate_batch self c model x_batch y_batch a_batch = Inr (ResLists lists, log) \<and>
              i < length lists \<longrightarrow> list_all (\<lambda>v. v = NaN) (lists ! i)))"
proof -
  let ?rs = "row_shape_of self x_batch a_batch"
  from reduced_nan [OF assms(1-4) assms(6-8)]
  obtain st result where
    st: "sample_draws self c model x_batch y_batch a_batch = Inr st"
    and res: "np_max_axis0 (ros_batch st) = Inr result" "shape result = ?rs"
    and nan: "\<forall>k < prod_list ?rs. k div prod_list (tl ?rs) = i \<longrightarrow> data result ! k = NaN"
    by blast
  have i_lt: "i < hd ?rs"
  proof -
    from assms(6,7)
    have "list_all (\<lambda>i. 0 \<le> i \<and> i < int (hd ?rs)) (draw_changed c model x_batch d)"
      by (simp add: draws_succeed_def)
    with assms(8) have "int i < int (hd ?rs)" by (auto simp: list_all_iff)
    then show ?thesis by simp
  qed
  have single: "\<exists>result log.
      evaluate_batch self c model x_batch y_batch a_batch = Inr (ResArray result, log) \<and>
      data result ! i = NaN" if "\<not> multi_label self"
  proof -
    from that assms(1) have rs: "?rs = [n]" by (simp add: row_shape_of_def)
    with i_lt nan have "data result ! i = NaN" by simp
    moreover have "evaluate_batch self c model x_batch y_batch a_batch
        = Inr (ResArray result, calls st)"
      using st res(1) that assms(5) by (simp add: evaluate_batch_def reducer_def)
    ultimately show ?thesis by blast
  qed
  have multi: "list_all (\<lambda>v. v = NaN) (lists ! i)"
    if m: "multi_label self"
      and ev: "evaluate_batch self c model x_batch y_batch a_batch = Inr (ResLists lists, log)"
      and il: "i < length lists" for lists log
  proof -
    from m assms(4) obtain a0 a1 as where "shape a_batch = a0 # a1 # as"
      by (cases "shape a_batch"; cases "tl (shape a_batch)") (auto simp: ndim_def)
    with m have rs: "?rs = [a0, a1]" by (simp add: row_shape_of_def)
    from ev st res(1) m assms(5) have mll: "multi_label_lists result y_batch = Inr lists"
      by (auto simp: evaluate_batch_def reducer_def bind_err_def split: sum.splits)
    then obtain lss where y: "y_batch = LabelLists lss"
      and coll: "collect (map (\<lambda>(index, label_list). collect (map (get2 result index) label_list))
                       (enumerate 0 lss)) = Inr lists"
      using il by (auto simp: multi_label_lists_def split: label_batch.splits list.splits)
    from collect_Inr [OF coll] il
    have inner: "collect (map (get2 result i) (lss ! i)) = Inr (lists ! i)"
      by (auto simp: nth_enumerate_eq)
    have "v = NaN" if "v \<in> set (lists ! i)" for v
    proof -
      from that obtain j where j: "j < length (lists ! i)" "v = lists ! i ! j"
        by (auto simp: in_set_conv_nth)
      from collect_Inr [OF inner] j(1)
      have g: "get2 result i (lss ! i ! j) = Inr v" by (auto simp: j(2))
      from get2_Inr [OF g] res(2) rs
      obtain j' where j': "j' < a1" "v = data result ! (i * a1 + j')"
        by auto
      have "i < a0" using i_lt rs by simp
      then have "Suc i \<le> a0" by simp
      then have "Suc i * a1 \<le> a0 * a1" by (rule mult_le_mono1)
      then have "i * a1 + j' < a0 * a1" using j'(1) by simp
      moreover have "(i * a1 + j') div a1 = i" using j'(1) by simp
      ultimately show ?thesis using nan rs j'(2) by simp
    qed
    then show ?thesis by (simp add: list_all_iff)
  qed
  from single multi show ?thesis by blast
qed

lemma replicate_numeral [simp]:
  "replicate (numeral k) x = x # replicate (pred_numeral k) x"
  by (simp add: numeral_eq_Suc)

lemma sqrt_49: "sqrt 49 = 7"
  using real_sqrt_abs [of 7] by simp

lemma sqrt_676: "sqrt 676 = 26"
  using real_sqrt_abs [of 26] by simp

lemmas stub_ml_defs = stub_ml_metric_def stub_ml_explain_def stub_ml_collaborators_def
  stub_ml_y_batch_def stub_ml_ros_def

lemma stub_ml_objective_0:
  "draw_objective stub_ml_metric stub_ml_collaborators () stub_x_batch stub_ml_y_batch
     (stub_ml_explain stub_x_batch) 0 = Inr (stub_ml_ros 0)"
  by (simp add: draw_objective_def stub_ml_defs stub_defs eval_defs sqrt_9 sqrt_16 sqrt_49)

lemma stub_ml_objective_1:
  "draw_objective stub_ml_metric stub_ml_collaborators () stub_x_batch stub_ml_y_batch
     (stub_ml_explain stub_x_batch) (Suc 0) = Inr (stub_ml_ros (Suc 0))"
  by (simp add: draw_objective_def stub_ml_defs stub_defs eval_defs sqrt_16 sqrt_64 sqrt_676)

lemma stub_ml_changed:
  "draw_changed stub_ml_collaborators () stub_x_batch 0 = []"
  "draw_changed stub_ml_collaborators () stub_x_batch (Suc 0) = [0]"
  by (simp_all add: draw_changed_def stub_ml_defs stub_defs)

lemma stub_ml_row_shape:
  "row_shape_of stub_ml_metric stub_x_batch (stub_ml_explain stub_x_batch) = [2, 3]"
  by (simp add: row_shape_of_def stub_ml_defs)

lemma stub_ml_draws_succeed:
  "draws_succeed stub_ml_metric stub_ml_collaborators () stub_x_batch stub_ml_y_batch
     (stub_ml_explain stub_x_batch) stub_ml_ros"
proof -
  have "d < nat (nr_samples stub_ml_metric) \<longleftrightarrow> d = 0 \<or> d = Suc 0" for d
    by (auto simp: stub_ml_metric_def)
  moreover have "well_formed (stub_ml_ros 0)" "well_formed (stub_ml_ros (Suc 0))"
    "shape (stub_ml_ros 0) = [2, 3]" "shape (stub_ml_ros (Suc 0)) = [2, 3]"
    by (simp_all add: stub_ml_ros_def well_formed_def)
  ultimately show ?thesis
    using stub_ml_objective_0 stub_ml_objective_1 stub_ml_changed stub_ml_row_shape
    by (auto simp: draws_succeed_def)
qed

lemma stub_ml_evaluate_batch:
  "\<exists>log. evaluate_batch stub_ml_metric stub_ml_collaborators () stub_x_batch stub_ml_y_batch
     (stub_ml_explain stub_x_batch) = Inr (ResLists [[NaN, NaN], [Fin (13 / 2)]], log)"
proof -
  have x: "shape stub_x_batch = 2 # [1]" "(2::nat) \<noteq> 0"
    and nr: "0 \<le> nr_samples stub_ml_metric"
    and ml: "multi_label stub_ml_metric \<longrightarrow> 2 \<le> ndim (stub_ml_explain stub_x_batch)"
    by (simp_all add: stub_defs stub_ml_defs ndim_def)
  have n: "nat (nr_samples stub_ml_metric) = Suc (Suc 0)" by (simp add: stub_ml_metric_def)
  have "sample_draws stub_ml_metric stub_ml_collaborators () stub_x_batch stub_ml_y_batch
     (stub_ml_explain stub_x_batch) =
    Inr \<lparr>ros_batch = [stub_ml_ros 0,
                      \<lparr>shape = [2, 3], data = [NaN, NaN, NaN, Fin (1 / 2), Fin 2, Fin (13 / 2)]\<rparr>],
        calls = PredictBaseline stub_x_batch #
          draw_calls stub_ml_collaborators stub_x_batch stub_ml_y_batch 0 @
          draw_calls stub_ml_collaborators stub_x_batch stub_ml_y_batch 1\<rparr>"
    unfolding sample_draws_marked [OF x nr ml stub_ml_draws_succeed] stub_ml_row_shape n
    by (simp add: stub_ml_changed nan_marked_def stub_ml_ros_def enumerate_eq_zip)
  then show ?thesis
    by (simp add: evaluate_batch_def reducer_def np_max_axis0_def multi_label_lists_def
        stub_ml_metric_def stub_ml_y_batch_def stub_ml_ros_def get2_def norm_index_def
        fl_max_def enumerate_eq_zip)
qed

text \<open>The theorem in the two scenarios: the detector reports sample \<open>0\<close> in draw \<open>1\<close>.\<close>

theorem nan_propagates_witness:
  "(\<exists>result log.
      evaluate_batch stub_metric stub_collaborators () stub_x_batch (Labels [0, 1])
        (stub_square stub_x_batch) = Inr (ResArray result, log) \<and>
      data result ! 0 = NaN) \<and>
   (\<exists>log.
      evaluate_batch stub_ml_metric stub_ml_collaborators () stub_x_batch stub_ml_y_batch
        (stub_ml_explain stub_x_batch) = Inr (ResLists [[NaN, NaN], [Fin (13 / 2)]], log) \<and>
      list_all (\<lambda>v. v = NaN) ([[NaN, NaN], [Fin (13 / 2)]] ! 0))"
proof
  have x: "shape stub_x_batch = 2 # [1]" "(2::nat) \<noteq> 0"
    and nr: "1 \<le> nr_samples stub_metric"
    and ml: "multi_label stub_metric \<longrightarrow> 2 \<le> ndim (stub_square stub_x_batch)"
    and agg: "\<not> return_aggregate stub_metric"
    and d: "Suc 0 < nat (nr_samples stub_metric)"
    by (simp_all add: stub_defs)
  have i: "int 0 \<in> set (draw_changed stub_collaborators () stub_x_batch (Suc 0))"
    by (simp add: stub_changed)
  from nan_propagates [OF x nr ml agg stub_draws_succeed d i]
  show "\<exists>result log.
      evaluate_batch stub_metric stub_collaborators () stub_x_batch (Labels [0, 1])
        (stub_square stub_x_batch) = Inr (ResArray result, log) \<and>
      data result ! 0 = NaN"
    by (simp add: stub_metric_def)
next
  have x: "shape stub_x_batch = 2 # [1]" "(2::nat) \<noteq> 0"
    and nr: "1 \<le> nr_samples stub_ml_metric"
    and ml: "multi_label stub_ml_metric \<longrightarrow> 2 \<le> ndim (stub_ml_explain stub_x_batch)"
    and agg: "\<not> return_aggregate stub_ml_metric"
    and d: "Suc 0 < nat (nr_samples stub_ml_metric)"
    by (simp_all add: stub_defs stub_ml_defs ndim_def)
  have i: "int 0 \<in> set (draw_changed stub_ml_collaborators () stub_x_batch (Suc 0))"
    by (simp add: stub_ml_changed)
  from stub_ml_evaluate_batch obtain log where
    ev: "evaluate_batch stub_ml_metric stub_ml_collaborators () stub_x_batch stub_ml_y_batch
        (stub_ml_explain stub_x_batch) = Inr (ResLists [[NaN, NaN], [Fin (13 / 2)]], log)"
    by blast
  from nan_propagates [OF x nr ml agg stub_ml_draws_succeed d i] ev
  have "list_all (\<lambda>v. v = NaN) ([[NaN, NaN], [Fin (13 / 2)]] ! 0)"
    by (simp add: stub_ml_metric_def)
  with ev show "\<exists>log.
      evaluate_batch stub_ml_metric stub_ml_collaborators () stub_x_batch stub_ml_y_batch
        (stub_ml_explain stub_x_batch) = Inr (ResLists [[NaN, NaN], [Fin (13 / 2)]], log) \<and>
      list_all (\<lambda>v. v = NaN) ([[NaN, NaN], [Fin (13 / 2)]] ! 0)"
    by blast
qed

subsection \<open>Aggregation\<close>

lemma objective_return_aggregate:
  "relative_output_stability_objective (self\<lparr>return_aggregate := b\<rparr>) h_x h_xs e_x e_xs =
   relative_output_stability_objective self h_x h_xs e_x e_xs"
  by (simp add: relative_output_stability_objective_def)

lemma draw_step_return_aggregate:
  "draw_step (self\<lparr>return_aggregate := b\<rparr>) c model x_batch y_batch a_batch logits batch_size index st =
   draw_step self c model x_batch y_batch a_batch logits batch_size index st"
  by (simp add: draw_step_def objective_return_aggregate)

lemma sampling_loop_return_aggregate:
  "sampling_loop (self\<lparr>return_aggregate := b\<rparr>) c model x_batch y_batch a_batch logits batch_size ds st =
   sampling_loop self c model x_batch y_batch a_batch logits batch_size ds st"
proof (induction ds arbitrary: st)
  case Nil
  show ?case by simp
next
  case (Cons d ds)
  show ?case
    by (cases "draw_step self c model x_batch y_batch a_batch logits batch_size d st")
       (simp_all add: draw_step_return_aggregate Cons.IH)
qed

lemma prepare_output_return_aggregate:
  "prepare_output (self\<lparr>return_aggregate := b\<rparr>) batch_size a_batch =
   prepare_output self batch_size a_batch"
  by (simp add: prepare_output_def split: list.splits)

lemma sample_draws_return_aggregate:
  "sample_draws (self\<lparr>return_aggregate := b\<rparr>) c model x_batch y_batch a_batch =
   sample_draws self c model x_batch y_batch a_batch"
  by (cases "shape x_batch")
     (simp_all add: sample_draws_def prepare_output_return_aggregate
        sampling_loop_return_aggregate)

text \<open>
  Claim C8. With \<open>return_aggregate\<close> set, \<^verbatim>\<open>evaluate_batch\<close> returns the one-element list of
  \<open>aggregate_func\<close> applied to the result that the same call returns without aggregation
  (the array of the scores, or the nested list in multi-label mode).
\<close>

theorem aggregate_wraps_result:
  assumes "return_aggregate self"
    and "evaluate_batch (self\<lparr>return_aggregate := False\<rparr>) c model x_batch y_batch a_batch
           = Inr (result, trace)"
  shows "evaluate_batch self c model x_batch y_batch a_batch =
         Inr (ResAggregate [aggregate_func c result], trace)"
proof -
  from assms(2) obtain st where
    st: "sample_draws self c model x_batch y_batch a_batch = Inr st"
    and red: "reducer (self\<lparr>return_aggregate := False\<rparr>) c (ros_batch st) y_batch = Inr result"
    and trace: "trace = calls st"
    by (auto simp: evaluate_batch_def sample_draws_return_aggregate bind_err_def split: sum.splits)
  from red assms(1) have "reducer self c (ros_batch st) y_batch =
      Inr (ResAggregate [aggregate_func c result])"
    by (auto simp: reducer_def bind_err_def split: sum.splits if_splits)
  with st trace show ?thesis by (simp add: evaluate_batch_def)
qed

lemma stub_evaluate_batch:
  "evaluate_batch stub_metric stub_collaborators () stub_x_batch (Labels [0, 1])
     (stub_square stub_x_batch) =
   Inr (ResArray \<lparr>shape = [2], data = [NaN, Fin 2]\<rparr>,
        PredictBaseline stub_x_batch #
        draw_calls stub_collaborators stub_x_batch (Labels [0, 1]) 0 @
        draw_calls stub_collaborators stub_x_batch (Labels [0, 1]) 1)"
  unfolding evaluate_batch_def stub_sample_draws
  by (simp add: reducer_def np_max_axis0_def fl_max_def stub_metric_def)

text \<open>The theorem in the scenario.\<close>

theorem aggregate_wraps_result_witness:
  "\<exists>log. evaluate_batch (stub_metric\<lparr>return_aggregate := True\<rparr>) stub_collaborators ()
      stub_x_batch (Labels [0, 1]) (stub_square stub_x_batch) =
    Inr (ResAggregate [aggregate_func stub_collaborators (ResArray \<lparr>shape = [2], data = [NaN, Fin 2]\<rparr>)],
         log)"
proof -
  let ?self = "stub_metric\<lparr>return_aggregate := True\<rparr>"
  have "?self\<lparr>return_aggregate := False\<rparr> = stub_metric" by (simp add: stub_metric_def)
  with stub_evaluate_batch
  have "evaluate_batch (?self\<lparr>return_aggregate := False\<rparr>) stub_collaborators ()
      stub_x_batch (Labels [0, 1]) (stub_square stub_x_batch) =
    Inr (ResArray \<lparr>shape = [2], data = [NaN, Fin 2]\<rparr>,
        PredictBaseline stub_x_batch #
        draw_calls stub_collaborators stub_x_batch (Labels [0, 1]) 0 @
        draw_calls stub_collaborators stub_x_batch (Labels [0, 1]) 1)"
    by simp
  from aggregate_wraps_result [OF _ this] show ?thesis by simp
qed

subsection \<open>The baseline logits\<close>

lemma prepare_output_Inr:
  assumes "prepare_output self batch_size a_batch = Inr rows0" "shape x_batch = batch_size # xs"
  shows "rows0 = replicate (nat (nr_samples self)) (np_zeros (row_shape_of self x_batch a_batch))"
  using assms
  by (auto simp: prepare_output_def row_shape_of_def split: if_splits list.splits)

lemma io_draw_step_row:
  assumes "batch_size \<noteq> 0" "index < length rows" "shape (rows ! index) = row_shape"
  shows "io_draw_step self c model x_batch y_batch a_batch logits batch_size index (rows, s) =
         bind_err (io_draw_row self c model x_batch y_batch a_batch logits row_shape s) (\<lambda>r.
           Inr (rows[index := r], io_draw_state c model x_batch y_batch s))"
proof -
  obtain x_p s1 where p: "io_perturb_batch c x_batch s = (x_p, s1)" by (cases "io_perturb_batch c x_batch s")
  obtain a_p s2 where e: "io_explain_batch c model x_p y_batch s1 = (a_p, s2)"
    by (cases "io_explain_batch c model x_p y_batch s1")
  obtain l_p s3 where l: "io_predict c model x_p s2 = (l_p, s3)"
    by (cases "io_predict c model x_p s2")
  obtain ch s4 where ch: "io_changed_prediction_indices_func c model x_batch x_p s3 = (ch, s4)"
    by (cases "io_changed_prediction_indices_func c model x_batch x_p s3")
  have d: "io_draw c model x_batch y_batch s = ((x_p, a_p, l_p, ch), s4)"
    by (simp add: io_draw_def p e l ch)
  show ?thesis
  proof (cases "relative_output_stability_objective self logits l_p a_batch a_p")
    case (Inl err)
    then show ?thesis
      using assms(1) by (simp add: io_draw_step_def io_draw_row_def d p e l)
  next
    case (Inr ros)
    show ?thesis
    proof (cases "assign_broadcast row_shape ros")
      case (Inl err)
      then show ?thesis
        using assms Inr by (simp add: io_draw_step_def io_draw_row_def d p e l set_row_def)
    next
      case r0: (Inr r0)
      show ?thesis
      proof (cases "length ch \<noteq> 0")
        case False
        then show ?thesis
          using assms Inr r0
          by (simp add: io_draw_step_def io_draw_row_def io_draw_state_def d p e l ch set_row_def)
      next
        case True
        then show ?thesis
          using assms Inr r0
          by (cases "set_nan ch r0")
             (simp_all add: io_draw_step_def io_draw_row_def io_draw_state_def d p e l ch
                set_row_def set_nan_at_def)
      qed
    qed
  qed
qed

lemma io_draw_row_shape:
  assumes "io_draw_row self c model x_batch y_batch a_batch logits row_shape s = Inr r"
  shows "shape r = row_shape"
proof -
  obtain x_p a_p l_p ch where d: "fst (io_draw c model x_batch y_batch s) = (x_p, a_p, l_p, ch)"
    by (cases "fst (io_draw c model x_batch y_batch s)") auto
  from assms obtain ros r0 where
    r0: "assign_broadcast row_shape ros = Inr r0"
    and r: "(if length ch \<noteq> 0 then set_nan ch r0 else Inr r0) = Inr r"
    by (auto simp: io_draw_row_def d bind_err_def split: sum.splits)
  from r0 have "shape r0 = row_shape" by (rule assign_broadcast_shape)
  with r show ?thesis by (auto split: if_splits dest: set_nan_shape)
qed


lemma io_sampling_loop_Inr:
  assumes bs: "batch_size \<noteq> 0"
    and loop: "io_sampling_loop self c model x_batch y_batch a_batch logits batch_size ds (rows, s)
           = Inr (rows', s')"
    and dist: "distinct ds"
    and inr: "\<forall>d \<in> set ds. d < length rows"
    and shp: "\<forall>j < length rows. shape (rows ! j) = row_shape"
  shows "s' = (io_draw_state c model x_batch y_batch ^^ length ds) s \<and>
         length rows' = length rows \<and>
         (\<forall>i < length rows. i \<notin> set ds \<longrightarrow> rows' ! i = rows ! i) \<and>
         (\<forall>j < length ds.
            io_draw_row self c model x_batch y_batch a_batch logits row_shape
              ((io_draw_state c model x_batch y_batch ^^ j) s) = Inr (rows' ! (ds ! j)))"
  using loop dist inr shp
proof (induction ds arbitrary: rows s)
  case Nil
  then show ?case by simp
next
  case (Cons d ds)
  let ?f = "io_draw_state c model x_batch y_batch"
  from Cons.prems(3) have d: "d < length rows" by simp
  with Cons.prems(4) have s: "shape (rows ! d) = row_shape" by simp
  note step = io_draw_step_row [OF bs d s, where self = self and c = c and model = model
      and x_batch = x_batch and y_batch = y_batch and a_batch = a_batch and logits = logits
      and s = s]
  from Cons.prems(1) obtain st1 where
    st1: "io_draw_step self c model x_batch y_batch a_batch logits batch_size d (rows, s) = Inr st1"
    and rest: "io_sampling_loop self c model x_batch y_batch a_batch logits batch_size ds st1
            = Inr (rows', s')"
    by (auto simp: bind_err_def split: sum.splits)
  from st1 obtain r where
    r: "io_draw_row self c model x_batch y_batch a_batch logits row_shape s = Inr r"
    and st1_eq: "st1 = (rows[d := r], ?f s)"
    unfolding step by (auto simp: bind_err_def split: sum.splits)
  have rshape: "shape r = row_shape" using r by (rule io_draw_row_shape)
  have p1: "distinct ds" and dn: "d \<notin> set ds" using Cons.prems(2) by simp_all
  have p2: "\<forall>d' \<in> set ds. d' < length (rows[d := r])" using Cons.prems(3) by simp
  have p3: "\<forall>j < length (rows[d := r]). shape (rows[d := r] ! j) = row_shape"
    using Cons.prems(4) rshape d by (auto simp: nth_list_update)
  from Cons.IH [OF rest [unfolded st1_eq] p1 p2 p3]
  have s': "s' = (?f ^^ length ds) (?f s)"
    and len: "length rows' = length (rows[d := r])"
    and keep: "\<forall>i < length (rows[d := r]). i \<notin> set ds \<longrightarrow> rows' ! i = rows[d := r] ! i"
    and rows: "\<forall>j < length ds.
            io_draw_row self c model x_batch y_batch a_batch logits row_shape
              ((?f ^^ j) (?f s)) = Inr (rows' ! (ds ! j))"
    by blast+
  have a: "s' = (?f ^^ length (d # ds)) s" using s' by (simp add: funpow_swap1)
  have b: "length rows' = length rows" using len by simp
  have c': "\<forall>i < length rows. i \<notin> set (d # ds) \<longrightarrow> rows' ! i = rows ! i"
    using keep by auto
  have rd: "rows' ! d = r" using keep d dn by simp
  have e: "io_draw_row self c model x_batch y_batch a_batch logits row_shape ((?f ^^ j) s)
        = Inr (rows' ! ((d # ds) ! j))" if "j < length (d # ds)" for j
  proof (cases j)
    case 0
    then show ?thesis using r rd by simp
  next
    case (Suc k)
    with that have "k < length ds" by simp
    with rows have "io_draw_row self c model x_batch y_batch a_batch logits row_shape
        ((?f ^^ k) (?f s)) = Inr (rows' ! (ds ! k))" by simp
    then show ?thesis using Suc by (simp add: funpow_swap1)
  qed
  from a b c' e show ?case by blast
qed

lemma io_sampling_loop_empty_batch:
  "ds \<noteq> [] \<Longrightarrow>
   io_sampling_loop self c model x_batch y_batch a_batch logits 0 ds st = Inl IndexError"
  by (cases ds) (simp_all add: io_draw_step_def)

lemma logged_predict:
  "io_predict (logged c) model x (trace, s) =
     (fst (io_predict c model x s), (trace @ [CallPredict x], snd (io_predict c model x s)))"
  by (simp add: logged_def split: prod.splits)

lemma logged_draw:
  "io_draw (logged c) model x_batch y_batch (trace, s) =
     (fst (io_draw c model x_batch y_batch s),
      (trace @ io_draw_log c model x_batch y_batch s, io_draw_state c model x_batch y_batch s))"
  by (simp add: io_draw_def io_draw_log_def io_draw_state_def logged_def split: prod.splits)

lemma logged_draw_state:
  "io_draw_state (logged c) model x_batch y_batch (trace, s) =
     (trace @ io_draw_log c model x_batch y_batch s, io_draw_state c model x_batch y_batch s)"
  by (simp add: io_draw_state_def [of "logged c"] logged_draw)

lemma logged_draw_states:
  "(io_draw_state (logged c) model x_batch y_batch ^^ k) (trace, s) =
     (trace @ concat (map (\<lambda>d. io_draw_log c model x_batch y_batch
                 ((io_draw_state c model x_batch y_batch ^^ d) s)) [0..<k]),
      (io_draw_state c model x_batch y_batch ^^ k) s)"
  by (induction k) (simp_all add: logged_draw_state)

lemma logged_draw_row:
  "io_draw_row self (logged c) model x_batch y_batch a_batch logits row_shape (trace, s) =
   io_draw_row self c model x_batch y_batch a_batch logits row_shape s"
  by (simp add: io_draw_row_def logged_draw)

lemma filter_predict_draw_log:
  "length (filter is_call_predict (io_draw_log c model x_batch y_batch s)) = 1"
  by (simp add: io_draw_log_def split: prod.splits)

lemma filter_predict_draw_logs:
  "length (filter is_call_predict (concat (map (\<lambda>d. io_draw_log c model x_batch y_batch (f d)) ds)))
     = length ds"
  by (induction ds) (simp_all add: filter_predict_draw_log)


lemma io_draw_row_objective:
  assumes "io_draw_row self c model x_batch y_batch a_batch logits row_shape s = Inr r"
  shows "\<exists>ros. draw_objective_io self c model x_batch y_batch a_batch logits s = Inr ros"
  using assms
  by (cases "draw_objective_io self c model x_batch y_batch a_batch logits s")
     (auto simp: io_draw_row_def draw_objective_io_def split: prod.splits)

text \<open>
  Claim C9. Let \<^verbatim>\<open>evaluate_batch\<close> return, run from the state \<open>s0\<close> with collaborators that
  record their calls. Then the calls are: first \<^verbatim>\<open>model.predict\<close> on \<open>x_batch\<close>, then the
  calls of the draws in order, each draw with one call of \<^verbatim>\<open>model.predict\<close>, on its
  perturbed input, and after the loop no call of \<^verbatim>\<open>model.predict\<close>; so the model is
  called \<open>nr_samples + 1\<close> times, once before the loop and once in each draw. The
  objective of every draw returns on the value \<open>baseline_logits c model x_batch s0\<close> that
  this first call returned in the state \<open>s0\<close>, and the row of the draw in the draw
  matrix is computed from it, whatever the state of the collaborators has become.
\<close>

theorem baseline_logits_once:
  assumes "io_evaluate_batch self (logged c) model x_batch y_batch a_batch ([], s0)
             = Inr (result, (trace, s_end))"
  shows "\<exists>rows rest.
           io_sample_draws self (logged c) model x_batch y_batch a_batch ([], s0) =
             Inr (rows,
                  (CallPredict x_batch #
                     concat (map (\<lambda>d. io_draw_log c model x_batch y_batch
                                (draw_start c model x_batch y_batch s0 d))
                           [0..<nat (nr_samples self)]),
                   draw_start c model x_batch y_batch s0 (nat (nr_samples self)))) \<and>
           trace = CallPredict x_batch #
                     concat (map (\<lambda>d. io_draw_log c model x_batch y_batch
                                (draw_start c model x_batch y_batch s0 d))
                           [0..<nat (nr_samples self)]) @ rest \<and>
           filter is_call_predict rest = [] \<and>
           length (filter is_call_predict trace) = nat (nr_samples self) + 1 \<and>
           length rows = nat (nr_samples self) \<and>
           (\<forall>d < nat (nr_samples self).
              (\<exists>ros. draw_objective_io self c model x_batch y_batch a_batch
                        (baseline_logits c model x_batch s0)
                        (draw_start c model x_batch y_batch s0 d) = Inr ros) \<and>
              io_draw_row self c model x_batch y_batch a_batch
                (baseline_logits c model x_batch s0) (row_shape_of self x_batch a_batch)
                (draw_start c model x_batch y_batch s0 d) = Inr (rows ! d))"
proof -
  let ?n = "nat (nr_samples self)"
  let ?rs = "row_shape_of self x_batch a_batch"
  let ?logits = "baseline_logits c model x_batch s0"
  let ?s1 = "snd (io_predict c model x_batch s0)"
  let ?f = "io_draw_state c model x_batch y_batch"
  let ?logs = "concat (map (\<lambda>d. io_draw_log c model x_batch y_batch
                 (draw_start c model x_batch y_batch s0 d)) [0..<?n])"
  from assms obtain rows tr1 s1' where
    sd: "io_sample_draws self (logged c) model x_batch y_batch a_batch ([], s0)
           = Inr (rows, (tr1, s1'))"
    and tail: "\<exists>rest. trace = tr1 @ rest \<and> filter is_call_predict rest = []"
    by (auto simp: io_evaluate_batch_def bind_err_def logged_def
          split: sum.splits if_splits prod.splits)
  from sd obtain batch_size xs rows0 where
    x: "shape x_batch = batch_size # xs"
    and prep: "prepare_output self batch_size a_batch = Inr rows0"
    and loop: "io_sampling_loop self (logged c) model x_batch y_batch a_batch ?logits
        batch_size [0..<?n] (rows0, ([CallPredict x_batch], ?s1)) = Inr (rows, (tr1, s1'))"
    by (auto simp: io_sample_draws_def bind_err_def logged_predict baseline_logits_def
          split: list.splits sum.splits)
  have rows0: "rows0 = replicate ?n (np_zeros ?rs)"
    using prep x by (rule prepare_output_Inr)
  have main: "tr1 = CallPredict x_batch # ?logs \<and>
        s1' = draw_start c model x_batch y_batch s0 ?n \<and> length rows = ?n \<and>
        (\<forall>d < ?n. io_draw_row self c model x_batch y_batch a_batch ?logits ?rs
             (draw_start c model x_batch y_batch s0 d) = Inr (rows ! d))"
  proof (cases "?n = 0")
    case True
    with loop rows0 show ?thesis by (simp add: draw_start_def)
  next
    case False
    then have "[0..<?n] \<noteq> []" by simp
    with loop have bs: "batch_size \<noteq> 0"
      using io_sampling_loop_empty_batch [of "[0..<?n]" self "logged c" model x_batch y_batch
          a_batch ?logits "(rows0, ([CallPredict x_batch], ?s1))"]
      by (cases "batch_size = 0") simp_all
    have inv0: "distinct [0..<?n]" by simp
    have inv1: "\<forall>d \<in> set [0..<?n]. d < length rows0" by (simp add: rows0)
    have inv2: "\<forall>j < length rows0. shape (rows0 ! j) = ?rs"
      by (simp add: rows0 np_zeros_def)
    from io_sampling_loop_Inr [OF bs loop inv0 inv1 inv2]
    have st: "(tr1, s1') = (io_draw_state (logged c) model x_batch y_batch ^^ ?n)
                 ([CallPredict x_batch], ?s1)"
      and len: "length rows = length rows0"
      and rows: "\<forall>j < ?n. io_draw_row self (logged c) model x_batch y_batch a_batch ?logits ?rs
            ((io_draw_state (logged c) model x_batch y_batch ^^ j)
               ([CallPredict x_batch], ?s1)) = Inr (rows ! j)"
      by simp_all
    from st have "tr1 = CallPredict x_batch # ?logs" "s1' = draw_start c model x_batch y_batch s0 ?n"
      by (simp_all add: logged_draw_states draw_start_def)
    moreover have "length rows = ?n" using len rows0 by simp
    moreover have "\<forall>d < ?n. io_draw_row self c model x_batch y_batch a_batch ?logits ?rs
             (draw_start c model x_batch y_batch s0 d) = Inr (rows ! d)"
      using rows by (simp add: logged_draw_states logged_draw_row draw_start_def)
    ultimately show ?thesis by simp
  qed
  from tail obtain rest where rest: "trace = tr1 @ rest" "filter is_call_predict rest = []"
    by blast
  have count: "length (filter is_call_predict trace) = ?n + 1"
    using rest main by (simp add: filter_predict_draw_logs)
  have obj: "\<exists>ros. draw_objective_io self c model x_batch y_batch a_batch ?logits
                     (draw_start c model x_batch y_batch s0 d) = Inr ros" if "d < ?n" for d
  proof -
    from main that
    have "io_draw_row self c model x_batch y_batch a_batch ?logits ?rs
            (draw_start c model x_batch y_batch s0 d) = Inr (rows ! d)" by simp
    then show ?thesis by (rule io_draw_row_objective)
  qed
  show ?thesis
    using sd rest count main obj by (intro exI [of _ rows] exI [of _ rest]) simp
qed


subsection \<open>The baseline logits in a scenario\<close>

lemma sqrt_36: "sqrt 36 = 6"
  using real_sqrt_abs [of 6] by simp

lemma sqrt_144: "sqrt 144 = 12"
  using real_sqrt_abs [of 12] by simp

lemma upt_0_2: "[0..<2] = [0, Suc 0]"
  by (simp add: upt_rec)

lemma stub_io_baseline:
  "baseline_logits stub_io_collaborators () stub_x_batch 0 = \<lparr>shape = [2, 1], data = [Fin 2, Fin 4]\<rparr>"
  by (simp add: baseline_logits_def stub_io_collaborators_def stub_defs)

lemma stub_io_draw_0:
  "io_draw stub_io_collaborators () stub_x_batch (Labels [0, 1]) (Suc 0) =
     ((\<lparr>shape = [2, 1], data = [Fin 2, Fin 4]\<rparr>, \<lparr>shape = [2, 1], data = [Fin 4, Fin 16]\<rparr>,
       \<lparr>shape = [2, 1], data = [Fin 6, Fin 12]\<rparr>, []), 2)"
  by (simp add: io_draw_def stub_io_collaborators_def stub_defs)

lemma stub_io_draw_1:
  "io_draw stub_io_collaborators () stub_x_batch (Labels [0, 1]) 2 =
     ((\<lparr>shape = [2, 1], data = [Fin 2, Fin 4]\<rparr>, \<lparr>shape = [2, 1], data = [Fin 4, Fin 16]\<rparr>,
       \<lparr>shape = [2, 1], data = [Fin 8, Fin 16]\<rparr>, [0]), 3)"
  by (simp add: io_draw_def stub_io_collaborators_def stub_defs)

lemma stub_io_objective_0:
  "relative_output_stability_objective stub_metric \<lparr>shape = [2, 1], data = [Fin 2, Fin 4]\<rparr>
     \<lparr>shape = [2, 1], data = [Fin 6, Fin 12]\<rparr> (stub_square stub_x_batch)
     \<lparr>shape = [2, 1], data = [Fin 4, Fin 16]\<rparr> = Inr \<lparr>shape = [2], data = [Fin (3 / 4), Fin (3 / 8)]\<rparr>"
  by (simp add: stub_defs eval_defs sqrt_9 sqrt_16 sqrt_64)

lemma stub_io_objective_1:
  "relative_output_stability_objective stub_metric \<lparr>shape = [2, 1], data = [Fin 2, Fin 4]\<rparr>
     \<lparr>shape = [2, 1], data = [Fin 8, Fin 16]\<rparr> (stub_square stub_x_batch)
     \<lparr>shape = [2, 1], data = [Fin 4, Fin 16]\<rparr> = Inr \<lparr>shape = [2], data = [Fin (1 / 2), Fin (1 / 4)]\<rparr>"
  by (simp add: stub_defs eval_defs sqrt_9 sqrt_36 sqrt_144)

lemma stub_io_run:
  "io_evaluate_batch stub_metric (logged stub_io_collaborators) () stub_x_batch (Labels [0, 1])
     (stub_square stub_x_batch) ([], 0) =
   Inr (ResArray \<lparr>shape = [2], data = [NaN, Fin (3 / 8)]\<rparr>,
        ([CallPredict stub_x_batch,
          CallPerturb stub_x_batch,
          CallExplain (stub_scale 0 stub_x_batch) (Labels [0, 1]),
          CallPredict (stub_scale 0 stub_x_batch),
          CallChanged stub_x_batch (stub_scale 0 stub_x_batch),
          CallPerturb stub_x_batch,
          CallExplain (stub_scale 0 stub_x_batch) (Labels [0, 1]),
          CallPredict (stub_scale 0 stub_x_batch),
          CallChanged stub_x_batch (stub_scale 0 stub_x_batch)], 3))"
  by (simp add: io_evaluate_batch_def io_sample_draws_def io_draw_step_def logged_def
        stub_io_collaborators_def prepare_output_def np_zeros_def set_row_def set_nan_at_def
        set_nan_def assign_broadcast_def norm_index_def np_max_axis0_def
        stub_defs eval_defs upt_0_2 sqrt_9 sqrt_16 sqrt_64 sqrt_36 sqrt_144
        replicate_numeral chunks_numeral bind_err_def fl_max_def)


lemma stub_io_draw_start_0:
  "draw_start stub_io_collaborators () stub_x_batch (Labels [0, 1]) 0 0 = Suc 0"
  by (simp add: draw_start_def stub_io_collaborators_def)

lemma stub_io_draw_start_1:
  "draw_start stub_io_collaborators () stub_x_batch (Labels [0, 1]) 0 (Suc 0) = 2"
proof -
  have "snd (io_predict stub_io_collaborators () stub_x_batch 0) = Suc 0"
    by (simp add: stub_io_collaborators_def)
  then show ?thesis by (simp add: draw_start_def io_draw_state_def stub_io_draw_0)
qed

lemma stub_io_row_0:
  "io_draw_row stub_metric stub_io_collaborators () stub_x_batch (Labels [0, 1])
     (stub_square stub_x_batch) \<lparr>shape = [2, 1], data = [Fin 2, Fin 4]\<rparr> [2] (Suc 0) =
   Inr \<lparr>shape = [2], data = [Fin (3 / 4), Fin (3 / 8)]\<rparr>"
  by (simp add: io_draw_row_def stub_io_draw_0 stub_io_objective_0 [simplified]
        assign_broadcast_def broadcast_shapes_def pad_shape_def)

lemma stub_io_row_1:
  "io_draw_row stub_metric stub_io_collaborators () stub_x_batch (Labels [0, 1])
     (stub_square stub_x_batch) \<lparr>shape = [2, 1], data = [Fin 2, Fin 4]\<rparr> [2] 2 =
   Inr \<lparr>shape = [2], data = [NaN, Fin (1 / 4)]\<rparr>"
  by (simp add: io_draw_row_def stub_io_draw_1 stub_io_objective_1 [simplified]
        assign_broadcast_def broadcast_shapes_def pad_shape_def set_nan_def norm_index_def)

text \<open>
  The theorem in the scenario with effects. The first call of the model returns
  \<open>[[2], [4]]\<close>; a second call on \<open>x_batch\<close> would return \<open>[[3], [6]]\<close>; both rows are
  computed from \<open>[[2], [4]]\<close>.
\<close>

theorem baseline_logits_once_witness:
  "io_evaluate_batch stub_metric (logged stub_io_collaborators) () stub_x_batch (Labels [0, 1])
     (stub_square stub_x_batch) ([], 0) =
   Inr (ResArray \<lparr>shape = [2], data = [NaN, Fin (3 / 8)]\<rparr>,
        ([CallPredict stub_x_batch,
          CallPerturb stub_x_batch,
          CallExplain (stub_scale 0 stub_x_batch) (Labels [0, 1]),
          CallPredict (stub_scale 0 stub_x_batch),
          CallChanged stub_x_batch (stub_scale 0 stub_x_batch),
          CallPerturb stub_x_batch,
          CallExplain (stub_scale 0 stub_x_batch) (Labels [0, 1]),
          CallPredict (stub_scale 0 stub_x_batch),
          CallChanged stub_x_batch (stub_scale 0 stub_x_batch)], 3)) \<and>
   baseline_logits stub_io_collaborators () stub_x_batch 0 =
     \<lparr>shape = [2, 1], data = [Fin 2, Fin 4]\<rparr> \<and>
   fst (io_predict stub_io_collaborators () stub_x_batch 1) =
     \<lparr>shape = [2, 1], data = [Fin 3, Fin 6]\<rparr> \<and>
   (\<exists>rows s. io_sample_draws stub_metric (logged stub_io_collaborators) () stub_x_batch
              (Labels [0, 1]) (stub_square stub_x_batch) ([], 0) = Inr (rows, s) \<and>
      length rows = 2 \<and>
      rows ! 0 = \<lparr>shape = [2], data = [Fin (3 / 4), Fin (3 / 8)]\<rparr> \<and>
      rows ! 1 = \<lparr>shape = [2], data = [NaN, Fin (1 / 4)]\<rparr>)"
proof -
  note run = stub_io_run
  from baseline_logits_once [OF run]
  obtain rows s where
    sd: "io_sample_draws stub_metric (logged stub_io_collaborators) () stub_x_batch
           (Labels [0, 1]) (stub_square stub_x_batch) ([], 0) = Inr (rows, s)"
    and len: "length rows = nat (nr_samples stub_metric)"
    and rows: "\<forall>d < nat (nr_samples stub_metric).
        io_draw_row stub_metric stub_io_collaborators () stub_x_batch (Labels [0, 1])
          (stub_square stub_x_batch) (baseline_logits stub_io_collaborators () stub_x_batch 0)
          (row_shape_of stub_metric stub_x_batch (stub_square stub_x_batch))
          (draw_start stub_io_collaborators () stub_x_batch (Labels [0, 1]) 0 d) = Inr (rows ! d)"
    by blast
  have n: "nat (nr_samples stub_metric) = 2" by (simp add: stub_metric_def)
  have rs: "row_shape_of stub_metric stub_x_batch (stub_square stub_x_batch) = [2]"
    by (simp add: row_shape_of_def stub_defs)
  have "0 < nat (nr_samples stub_metric)" by (simp add: n)
  from rows [rule_format, OF this]
  have r0: "rows ! 0 = \<lparr>shape = [2], data = [Fin (3 / 4), Fin (3 / 8)]\<rparr>"
    unfolding rs stub_io_baseline stub_io_draw_start_0 stub_io_row_0 by simp
  have "Suc 0 < nat (nr_samples stub_metric)" by (simp add: n)
  from rows [rule_format, OF this]
  have r1: "rows ! 1 = \<lparr>shape = [2], data = [NaN, Fin (1 / 4)]\<rparr>"
    unfolding rs stub_io_baseline stub_io_draw_start_1 stub_io_row_1 by simp
  have p1: "fst (io_predict stub_io_collaborators () stub_x_batch 1) =
     \<lparr>shape = [2, 1], data = [Fin 3, Fin 6]\<rparr>"
    by (simp add: stub_io_collaborators_def stub_defs)
  from run stub_io_baseline p1 sd len r0 r1 show ?thesis by (simp add: n)
qed

subsection \<open>The first embedding as an instance\<close>

text \<open>
  With collaborators that have no effect but the fresh noise of every draw, the embedding
  with effects returns what the first embedding returns.
\<close>

lemma stateless_draw_step:
  "map_sum id fst (io_draw_step self (stateless c) model x_batch y_batch a_batch logits
       batch_size index (rows, index)) =
   map_sum id ros_batch (draw_step self c model x_batch y_batch a_batch logits batch_size index
       \<lparr>ros_batch = rows, calls = trace\<rparr>)"
  by (auto simp: io_draw_step_def draw_step_def stateless_def bind_err_def Let_def
        split: sum.splits)

lemma stateless_draw_step_state:
  "io_draw_step self (stateless c) model x_batch y_batch a_batch logits batch_size index
       (rows, index) = Inr (rows', s) \<Longrightarrow> s = Suc index"
  by (auto simp: io_draw_step_def stateless_def bind_err_def Let_def
        split: sum.splits if_splits)

lemma stateless_sampling_loop:
  "map_sum id fst (io_sampling_loop self (stateless c) model x_batch y_batch a_batch logits
       batch_size [k..<k + m] (rows, k)) =
   map_sum id ros_batch (sampling_loop self c model x_batch y_batch a_batch logits batch_size
       [k..<k + m] \<lparr>ros_batch = rows, calls = trace\<rparr>)"
proof (induction m arbitrary: k rows trace)
  case 0
  then show ?case by simp
next
  case (Suc m)
  have upt: "[k..<k + Suc m] = k # [Suc k..<Suc k + m]" by (simp add: upt_rec)
  note step = stateless_draw_step [of self c model x_batch y_batch a_batch logits batch_size k
      rows trace]
  show ?case
  proof (cases "io_draw_step self (stateless c) model x_batch y_batch a_batch logits
       batch_size k (rows, k)")
    case (Inl err)
    with step show ?thesis
      unfolding upt
      by (cases "draw_step self c model x_batch y_batch a_batch logits batch_size k
            \<lparr>ros_batch = rows, calls = trace\<rparr>") (simp_all add: bind_err_def)
  next
    case (Inr st1)
    obtain rows1 s1 where st1: "st1 = (rows1, s1)" by (cases st1)
    from Inr st1 have s1: "s1 = Suc k" by (auto dest: stateless_draw_step_state)
    from step Inr st1 obtain st1' where
      p: "draw_step self c model x_batch y_batch a_batch logits batch_size k
            \<lparr>ros_batch = rows, calls = trace\<rparr> = Inr st1'" and r: "ros_batch st1' = rows1"
      by (cases "draw_step self c model x_batch y_batch a_batch logits batch_size k
            \<lparr>ros_batch = rows, calls = trace\<rparr>") simp_all
    have st1': "st1' = \<lparr>ros_batch = rows1, calls = calls st1'\<rparr>" using r by simp
    from Suc.IH [of "Suc k" rows1 "calls st1'"] show ?thesis
      unfolding upt using Inr st1 s1 p st1' by (simp add: bind_err_def)
  qed
qed

lemma stateless_sample_draws:
  "map_sum id fst (io_sample_draws self (stateless c) model x_batch y_batch a_batch 0) =
   map_sum id ros_batch (sample_draws self c model x_batch y_batch a_batch)"
proof (cases "shape x_batch")
  case Nil
  then show ?thesis by (simp add: io_sample_draws_def sample_draws_def)
next
  case (Cons batch_size xs)
  show ?thesis
  proof (cases "prepare_output self batch_size a_batch")
    case (Inl err)
    with Cons show ?thesis
      by (simp add: io_sample_draws_def sample_draws_def stateless_def bind_err_def)
  next
    case (Inr rows0)
    from stateless_sampling_loop [of self c model x_batch y_batch a_batch
        "predict c model x_batch" batch_size 0 "nat (nr_samples self)" rows0
        "[PredictBaseline x_batch]"]
    show ?thesis using Cons Inr
      by (simp add: io_sample_draws_def sample_draws_def bind_err_def Let_def
            stateless_def [of c])
  qed
qed

lemma stateless_evaluate_batch:
  "map_sum id fst (io_evaluate_batch self (stateless c) model x_batch y_batch a_batch 0) =
   map_sum id fst (evaluate_batch self c model x_batch y_batch a_batch)"
proof -
  note sd = stateless_sample_draws [of self c model x_batch y_batch a_batch]
  show ?thesis
  proof (cases "io_sample_draws self (stateless c) model x_batch y_batch a_batch 0")
    case (Inl err)
    with sd show ?thesis
      by (cases "sample_draws self c model x_batch y_batch a_batch")
         (simp_all add: io_evaluate_batch_def evaluate_batch_def bind_err_def)
  next
    case (Inr st)
    with sd obtain st' where
      p: "sample_draws self c model x_batch y_batch a_batch = Inr st'"
      and r: "ros_batch st' = fst st"
      by (cases "sample_draws self c model x_batch y_batch a_batch") simp_all
    show ?thesis
      using Inr p r
      by (auto simp: io_evaluate_batch_def evaluate_batch_def reducer_def bind_err_def
            stateless_def split: sum.splits prod.splits)
  qed
qed

subsection \<open>Multi-label mode\<close>

lemma r3_objective:
  "relative_output_stability_objective stub_ml_metric
     stub_x_batch (stub_scale 0 stub_x_batch)
     (stub_r3_explain stub_x_batch) (stub_r3_explain (stub_scale 0 stub_x_batch))
   = Inr \<lparr>shape = [2, 2], data = [Fin (sqrt 59), Fin (sqrt 59), Fin (sqrt 59 / 2), Fin (sqrt 59 / 2)]\<rparr>"
  by (simp add: stub_r3_explain_def stub_ml_defs stub_defs eval_defs)

lemma r3_draw_step:
  "draw_step stub_ml_metric stub_r3_collaborators () stub_x_batch stub_ml_y_batch
     (stub_r3_explain stub_x_batch) stub_x_batch 2 0
     \<lparr>ros_batch = replicate 2 (np_zeros [2, 1]), calls = [PredictBaseline stub_x_batch]\<rparr>
   = Inl BroadcastError"
proof -
  have "assign_broadcast [2, 1]
      \<lparr>shape = [2, 2], data = [Fin (sqrt 59), Fin (sqrt 59), Fin (sqrt 59 / 2), Fin (sqrt 59 / 2)]\<rparr>
      = Inl BroadcastError"
    by (simp add: assign_broadcast_def broadcast_shapes_def)
  then show ?thesis
    by (simp add: draw_step_def Let_def stub_r3_collaborators_def stub_collaborators_def
        r3_objective set_row_def np_zeros_def)
qed

lemma r3_evaluate:
  "evaluate_batch stub_ml_metric stub_r3_collaborators () stub_x_batch stub_ml_y_batch
     (stub_r3_explain stub_x_batch) = Inl BroadcastError"
proof -
  have n: "[0..<nat (nr_samples stub_ml_metric)] = [0, Suc 0]"
    by (simp add: stub_ml_metric_def upt_rec)
  have prep: "prepare_output stub_ml_metric 2 (stub_r3_explain stub_x_batch) =
      Inr (replicate 2 (np_zeros [2, 1]))"
    by (simp add: prepare_output_def stub_ml_metric_def stub_r3_explain_def)
  have sh: "shape stub_x_batch = [2, 1]" by (simp add: stub_defs)
  have p: "predict stub_r3_collaborators () stub_x_batch = stub_x_batch"
    by (simp add: stub_r3_collaborators_def stub_collaborators_def)
  show ?thesis
    unfolding evaluate_batch_def sample_draws_def n sh
    by (simp only: list.case Let_def prep bind_err_Inr p sampling_loop.simps r3_draw_step
        bind_err_Inl)
qed

lemma r3_wide_objective_0:
  "relative_output_stability_objective stub_ml_metric
     stub_x_batch (stub_scale 0 stub_x_batch)
     (stub_r3_wide_explain stub_x_batch) (stub_r3_wide_explain (stub_scale 0 stub_x_batch))
   = Inr \<lparr>shape = [2, 2], data = [Fin (sqrt 118), Fin (sqrt 118), Fin (sqrt 118 / 2), Fin (sqrt 118 / 2)]\<rparr>"
  by (simp add: stub_r3_wide_explain_def stub_ml_defs stub_defs eval_defs)

lemma r3_wide_objective_1:
  "relative_output_stability_objective stub_ml_metric
     stub_x_batch (stub_scale (Suc 0) stub_x_batch)
     (stub_r3_wide_explain stub_x_batch) (stub_r3_wide_explain (stub_scale (Suc 0) stub_x_batch))
   = Inr \<lparr>shape = [2, 2], data = [Fin (sqrt 1488 / 2), Fin (sqrt 1488 / 2), Fin (sqrt 1488 / 4), Fin (sqrt 1488 / 4)]\<rparr>"
  by (simp add: stub_r3_wide_explain_def stub_ml_defs stub_defs eval_defs)

lemma r3_wide_draws_succeed:
  "draws_succeed stub_ml_metric stub_r3_wide_collaborators () stub_x_batch stub_ml_y_batch
     (stub_r3_wide_explain stub_x_batch) stub_r3_wide_ros"
proof -
  have "d < nat (nr_samples stub_ml_metric) \<longleftrightarrow> d = 0 \<or> d = Suc 0" for d
    by (auto simp: stub_ml_metric_def)
  moreover have "well_formed (stub_r3_wide_ros 0)" "well_formed (stub_r3_wide_ros (Suc 0))"
    "shape (stub_r3_wide_ros 0) = [2, 2]" "shape (stub_r3_wide_ros (Suc 0)) = [2, 2]"
    by (simp_all add: stub_r3_wide_ros_def well_formed_def)
  moreover have "row_shape_of stub_ml_metric stub_x_batch (stub_r3_wide_explain stub_x_batch)
      = [2, 2]"
    by (simp add: row_shape_of_def stub_ml_metric_def stub_r3_wide_explain_def)
  moreover have "draw_changed stub_r3_wide_collaborators () stub_x_batch 0 = []"
    "draw_changed stub_r3_wide_collaborators () stub_x_batch (Suc 0) = [0]"
    by (simp_all add: draw_changed_def stub_r3_wide_collaborators_def stub_defs)
  moreover have
    "draw_objective stub_ml_metric stub_r3_wide_collaborators () stub_x_batch stub_ml_y_batch
       (stub_r3_wide_explain stub_x_batch) 0 = Inr (stub_r3_wide_ros 0)"
    "draw_objective stub_ml_metric stub_r3_wide_collaborators () stub_x_batch stub_ml_y_batch
       (stub_r3_wide_explain stub_x_batch) (Suc 0) = Inr (stub_r3_wide_ros (Suc 0))"
    using r3_wide_objective_0 r3_wide_objective_1
    by (simp_all add: draw_objective_def stub_r3_wide_collaborators_def stub_collaborators_def
        stub_r3_wide_ros_def)
  ultimately show ?thesis
    by (auto simp: draws_succeed_def)
qed

lemma r3_wide_evaluate:
  "evaluate_batch stub_ml_metric stub_r3_wide_collaborators () stub_x_batch stub_ml_y_batch
     (stub_r3_wide_explain stub_x_batch) = Inl IndexError"
proof -
  have x: "shape stub_x_batch = 2 # [1]" "(2::nat) \<noteq> 0"
    and nr: "0 \<le> nr_samples stub_ml_metric"
    and ml: "multi_label stub_ml_metric \<longrightarrow> 2 \<le> ndim (stub_r3_wide_explain stub_x_batch)"
    by (simp_all add: stub_defs stub_ml_defs stub_r3_wide_explain_def ndim_def)
  have n: "nat (nr_samples stub_ml_metric) = Suc (Suc 0)" by (simp add: stub_ml_metric_def)
  have rs: "row_shape_of stub_ml_metric stub_x_batch (stub_r3_wide_explain stub_x_batch)
      = [2, 2]"
    by (simp add: row_shape_of_def stub_ml_metric_def stub_r3_wide_explain_def)
  have m: "multi_label stub_ml_metric" "\<not> return_aggregate stub_ml_metric"
    by (simp_all add: stub_ml_metric_def)
  show ?thesis
    unfolding evaluate_batch_def sample_draws_marked [OF x nr ml r3_wide_draws_succeed] rs n
    by (simp add: m reducer_def np_max_axis0_def multi_label_lists_def stub_ml_y_batch_def
        get2_def norm_index_def enumerate_eq_zip nan_marked_def stub_r3_wide_ros_def)
qed

lemma norm_last_well_formed: "norm_last k a = Inr m \<Longrightarrow> well_formed m"
  by (auto simp: norm_last_def well_formed_def Let_def split: if_splits)

lemma denominator_of_well_formed:
  "denominator_of eps h_x h_xs = Inr d \<Longrightarrow> well_formed d"
  by (auto simp: denominator_of_def bind_err_def guard_zero_def well_formed_def
      split: sum.splits dest!: norm_last_well_formed)

lemma length_concat_uniform:
  "\<forall>ys \<in> set yss. length ys = l \<Longrightarrow> length (concat yss) = length yss * l"
  by (induction yss) simp_all

lemma broadcast_data_column_length:
  assumes "length xs = n"
  shows "length (broadcast_data [n, 1] [n, l] xs) = n * l"
proof -
  have rep: "length (concat (replicate k ys)) = k * length ys" for k and ys :: "'a list"
    by (induction k) simp_all
  have one: "length (broadcast_data [1] [l] ys) = l" if "length ys = 1" for ys :: "'a list"
    using that by (cases "l = 1") (simp_all add: rep)
  have "\<forall>ys \<in> set (chunks n 1 xs). length ys = 1"
    using assms chunks_length_elem [of xs n 1] by simp
  then have "\<forall>zs \<in> set (map (broadcast_data [1] [l]) (chunks n 1 xs)). length zs = l"
    using one by auto
  from length_concat_uniform [OF this] show ?thesis by simp
qed

lemma np_binop_column:
  assumes "shape a = [n, l]" "well_formed a" "shape b = [n, 1]" "well_formed b"
  shows "\<exists>r. np_binop f a b = Inr r \<and> shape r = [n, l] \<and> well_formed r"
proof -
  have bs: "broadcast_shapes [n, l] [n, 1] = Some [n, l]"
    by (simp add: broadcast_shapes_def)
  have la: "length (data a) = n * l" and lb: "length (data b) = n"
    using assms by (simp_all add: well_formed_def)
  have "broadcast_data [n, l] [n, l] (data a) = data a"
    using la by (intro broadcast_data_same) simp
  moreover have "length (broadcast_data [n, 1] [n, l] (data b)) = n * l"
    using lb by (rule broadcast_data_column_length)
  ultimately have "np_binop f a b =
      Inr \<lparr>shape = [n, l], data = map2 f (data a) (broadcast_data [n, 1] [n, l] (data b))\<rparr>"
    and "length (map2 f (data a) (broadcast_data [n, 1] [n, l] (data b))) = n * l"
    unfolding np_binop_def assms(1,3) bs using la
    by (simp_all add: pad_shape_def del: broadcast_data.simps)
  then show ?thesis by (simp add: well_formed_def del: broadcast_data.simps)
qed

lemma objective_rank5_multi_label:
  assumes "multi_label self"
    and e: "shape e_x = [n, l, c, h, w]" "shape e_xs = shape e_x"
    and hs: "shape h_x = [n, k]" "shape h_xs = [n, k]"
  shows "\<exists>r. relative_output_stability_objective self h_x h_xs e_x e_xs = Inr r \<and>
           shape r = [n, l] \<and> well_formed r"
proof -
  have nf: "norm_function (multi_label self) (ndim e_x) =
      Inr (\<lambda>arr. bind_err (norm_last 2 arr) (norm_last 1))"
    using assms(1) e(1) by (simp add: norm_function_def ndim_def)
  obtain q where q: "nominator_quotient (eps_min self) e_x e_xs = Inr q"
    "shape q = [n, l, c, h, w]"
    using nominator_quotient_shape [OF e(2)] e(1) by auto
  obtain m1 where m1: "norm_last 2 q = Inr m1" "shape m1 = [n, l, c]"
    using norm_last_shape [of 2 q] q(2) by (auto simp: ndim_def)
  obtain nom where nom: "norm_last 1 m1 = Inr nom" "shape nom = [n, l]"
    using norm_last_shape [of 1 m1] m1(2) by (auto simp: ndim_def)
  have nom_wf: "well_formed nom" using nom(1) by (rule norm_last_well_formed)
  obtain d where d: "denominator_of (eps_min self) h_x h_xs = Inr d" "shape d = [n]"
    using denominator_of_shape [OF hs] by auto
  have d_wf: "well_formed d" using d(1) by (rule denominator_of_well_formed)
  have ex: "shape (expand_dims_last d) = [n, 1]" "well_formed (expand_dims_last d)"
    using d(2) d_wf by (simp_all add: expand_dims_last_def well_formed_def)
  from np_binop_column [OF nom(2) nom_wf ex, of fl_div]
  obtain r where "np_div nom (expand_dims_last d) = Inr r" "shape r = [n, l]" "well_formed r"
    by (auto simp: np_div_def)
  then show ?thesis
    using assms(1) nf q(1) m1(1) nom(1) d(1)
    by (simp add: relative_output_stability_objective_def)
qed

lemma collect_map_Inr:
  "\<forall>x \<in> set xs. f x = Inr (g x) \<Longrightarrow> collect (map f xs) = Inr (map g xs)"
  by (induction xs) simp_all

lemma multi_label_lists_in_range:
  assumes "shape result = [n, l]" "length lss \<le> n"
    and "\<forall>ls \<in> set lss. \<forall>lab \<in> set ls. 0 \<le> lab \<and> lab < int l"
  shows "multi_label_lists result (LabelLists lss) =
         Inr (map (\<lambda>(index, label_list).
                map (\<lambda>label. data result ! (index * l + nat label)) label_list)
              (enumerate 0 lss))"
proof -
  have inner: "collect (map (get2 result index) label_list) =
      Inr (map (\<lambda>label. data result ! (index * l + nat label)) label_list)"
    if "(index, label_list) \<in> set (enumerate 0 lss)" for index label_list
  proof -
    from that have idx: "index < length lss" and ll: "label_list \<in> set lss"
      by (auto simp: in_set_enumerate_eq)
    have "get2 result index label = Inr (data result ! (index * l + nat label))"
      if "label \<in> set label_list" for label
    proof -
      from that ll assms(3) have "0 \<le> label" "label < int l" by auto
      then show ?thesis
        using assms(1,2) idx by (simp add: get2_def norm_index_def)
    qed
    then show ?thesis by (intro collect_map_Inr) simp
  qed
  have "collect (map (\<lambda>(index, label_list). collect (map (get2 result index) label_list))
                     (enumerate 0 lss)) =
        Inr (map (\<lambda>(index, label_list).
                map (\<lambda>label. data result ! (index * l + nat label)) label_list)
              (enumerate 0 lss))"
    using inner by (intro collect_map_Inr) auto
  then show ?thesis by (simp add: multi_label_lists_def)
qed

text \<open>
  Claim C7, as amended. In multi-label mode, for explanations of rank five whose second
  axis is the label axis (shape \<open>[n, l, ch, h, w]\<close>, for the batch and for every draw),
  logits of shape \<open>[n, k]\<close>, a detector that reports samples of the batch and labels in
  \<open>0 ..< l\<close>, \<^verbatim>\<open>evaluate_batch\<close> returns a nested list with one inner list for each sample,
  as long as the sample's list of labels, whose entries are the elements of the reduced
  result at the sample and the label.
\<close>

theorem multi_label_rank_five_lists:
  assumes "multi_label self" "\<not> return_aggregate self"
    and "1 \<le> nr_samples self"
    and "shape x_batch = n # xs" "n \<noteq> 0"
    and "shape a_batch = [n, l, ch, h, w]"
    and "shape (predict c model x_batch) = [n, k]"
    and "\<forall>d < nat (nr_samples self).
           shape (explain_batch c model (perturb_batch c d x_batch) y_batch) = [n, l, ch, h, w] \<and>
           shape (predict c model (perturb_batch c d x_batch)) = [n, k] \<and>
           list_all (\<lambda>i. 0 \<le> i \<and> i < int n) (draw_changed c model x_batch d)"
    and "y_batch = LabelLists lss" "length lss \<le> n"
    and "\<forall>ls \<in> set lss. \<forall>lab \<in> set ls. 0 \<le> lab \<and> lab < int l"
  shows "\<exists>st result lists.
           sample_draws self c model x_batch y_batch a_batch = Inr st \<and>
           np_max_axis0 (ros_batch st) = Inr result \<and> shape result = [n, l] \<and>
           evaluate_batch self c model x_batch y_batch a_batch = Inr (ResLists lists, calls st) \<and>
           length lists = length lss \<and>
           (\<forall>i < length lss.
              length (lists ! i) = length (lss ! i) \<and>
              (\<forall>j < length (lss ! i).
                 lists ! i ! j = data result ! (i * l + nat (lss ! i ! j))))"
proof -
  let ?n = "nat (nr_samples self)"
  let ?rs = "row_shape_of self x_batch a_batch"
  have rs: "?rs = [n, l]" using assms(1,6) by (simp add: row_shape_of_def)
  have ml: "multi_label self \<longrightarrow> 2 \<le> ndim a_batch" using assms(6) by (simp add: ndim_def)
  have nr0: "0 \<le> nr_samples self" using assms(3) by simp
  define ros where "ros d = projr (draw_objective self c model x_batch y_batch a_batch d)" for d
  have ok: "draws_succeed self c model x_batch y_batch a_batch ros"
    unfolding draws_succeed_def
  proof (intro allI impI)
    fix d assume d: "d < ?n"
    with assms(8) have
      e: "shape (explain_batch c model (perturb_batch c d x_batch) y_batch) = shape a_batch"
      and p: "shape (predict c model (perturb_batch c d x_batch)) = [n, k]"
      and ch: "list_all (\<lambda>i. 0 \<le> i \<and> i < int n) (draw_changed c model x_batch d)"
      using assms(6) by simp_all
    from objective_rank5_multi_label [OF assms(1) assms(6) e assms(7) p]
    obtain r where "draw_objective self c model x_batch y_batch a_batch d = Inr r"
      "shape r = [n, l]" "well_formed r"
      by (auto simp: draw_objective_def)
    then show "draw_objective self c model x_batch y_batch a_batch d = Inr (ros d) \<and>
        shape (ros d) = ?rs \<and> well_formed (ros d) \<and>
        list_all (\<lambda>i. 0 \<le> i \<and> i < int (hd ?rs)) (draw_changed c model x_batch d)"
      using ch by (simp add: ros_def rs)
  qed
  let ?row = "\<lambda>d. nan_marked (tl ?rs) (draw_changed c model x_batch d) (ros d)"
  let ?rows = "map ?row [0..<?n]"
  let ?st = "\<lparr>ros_batch = ?rows,
              calls = PredictBaseline x_batch #
                concat (map (draw_calls c x_batch y_batch) [0..<?n])\<rparr>"
  have st: "sample_draws self c model x_batch y_batch a_batch = Inr ?st"
    using assms(4,5) nr0 ml ok by (rule sample_draws_marked)
  have rows: "\<forall>r \<in> set ?rows. shape r = [n, l] \<and> length (data r) = n * l"
    using draws_succeed_rows [OF assms(4) ml ok] by (simp add: rs)
  have ne: "?rows \<noteq> []" using assms(3) by simp
  from np_max_axis0_column [OF ne rows]
  obtain result where res: "np_max_axis0 ?rows = Inr result" "shape result = [n, l]"
    by blast
  let ?lists = "map (\<lambda>(index, label_list).
                  map (\<lambda>label. data result ! (index * l + nat label)) label_list)
                (enumerate 0 lss)"
  have mll: "multi_label_lists result y_batch = Inr ?lists"
    unfolding assms(9) using res(2) assms(10,11) by (rule multi_label_lists_in_range)
  have ev: "evaluate_batch self c model x_batch y_batch a_batch = Inr (ResLists ?lists, calls ?st)"
    using st res(1) mll assms(1,2) by (simp add: evaluate_batch_def reducer_def)
  have len: "length ?lists = length lss" by simp
  have elems: "length (?lists ! i) = length (lss ! i) \<and>
      (\<forall>j < length (lss ! i). ?lists ! i ! j = data result ! (i * l + nat (lss ! i ! j)))"
    if "i < length lss" for i
    using that by (simp add: nth_enumerate_eq)
  have res': "np_max_axis0 (ros_batch ?st) = Inr result" using res(1) by simp
  show ?thesis
    apply (rule exI [of _ ?st], rule exI [of _ result], rule exI [of _ ?lists])
    apply (intro conjI allI impI)
          apply (rule st)
         apply (rule res')
        apply (rule res(2))
       apply (rule ev)
      apply (rule len)
    using elems apply blast
    using elems apply blast
    done
qed

text \<open>The theorem in the multi-label scenario, with the labels \<open>[[0, 1], [2]]\<close>.\<close>

theorem multi_label_rank_five_lists_witness:
  "\<exists>lists trace.
     evaluate_batch stub_ml_metric stub_ml_collaborators () stub_x_batch stub_ml_y_batch
       (stub_ml_explain stub_x_batch) = Inr (ResLists lists, trace) \<and>
     length lists = 2 \<and> length (lists ! 0) = 2 \<and> length (lists ! 1) = 1"
proof -
  have a: "multi_label stub_ml_metric" "\<not> return_aggregate stub_ml_metric"
    "1 \<le> nr_samples stub_ml_metric"
    by (simp_all add: stub_ml_metric_def)
  have x: "shape stub_x_batch = 2 # [1]" "(2::nat) \<noteq> 0"
    by (simp_all add: stub_x_batch_def)
  have e: "shape (stub_ml_explain stub_x_batch) = [2, 3, 1, 1, 1]"
    by (simp add: stub_ml_explain_def)
  have p: "shape (predict stub_ml_collaborators () stub_x_batch) = [2, 1]"
    by (simp add: stub_ml_collaborators_def stub_collaborators_def stub_x_batch_def)
  have draws: "\<forall>d < nat (nr_samples stub_ml_metric).
      shape (explain_batch stub_ml_collaborators ()
               (perturb_batch stub_ml_collaborators d stub_x_batch) stub_ml_y_batch)
        = [2, 3, 1, 1, 1] \<and>
      shape (predict stub_ml_collaborators ()
               (perturb_batch stub_ml_collaborators d stub_x_batch)) = [2, 1] \<and>
      list_all (\<lambda>i. 0 \<le> i \<and> i < int 2) (draw_changed stub_ml_collaborators () stub_x_batch d)"
    by (simp add: stub_ml_collaborators_def stub_collaborators_def stub_ml_explain_def
        stub_scale_def stub_x_batch_def draw_changed_def)
  have y: "stub_ml_y_batch = LabelLists [[0, 1], [2]]" "length [[0, 1], [2::int]] \<le> 2"
    "\<forall>ls \<in> set [[0, 1], [2::int]]. \<forall>lab \<in> set ls. 0 \<le> lab \<and> lab < int 3"
    by (simp_all add: stub_ml_y_batch_def)
  from multi_label_rank_five_lists [OF a x e p draws y] show ?thesis
  proof (elim exE conjE, goal_cases)
    case (1 st result lists)
    have "length (lists ! 0) = 2" using 1(6) [rule_format, of 0] by simp
    moreover have "length (lists ! 1) = 1" using 1(6) [rule_format, of 1] by simp
    ultimately show ?case
      using 1(4,5) by (intro exI [of _ lists] exI [of _ "calls st"]) simp
  qed
qed

text \<open>
  Claim C7 as stated fails: in multi-label mode with the labels \<open>[[0, 1], [2]]\<close> and
  explanations of rank three with the labels on the last axis, \<^verbatim>\<open>evaluate_batch\<close> raises.
  At shape \<open>[2, 1, 3]\<close> the objective, of shape \<open>[2, 2]\<close>, does not fit the row of shape
  \<open>[2, 1]\<close>; at shape \<open>[2, 2, 3]\<close> the label \<open>2\<close> is out of the bounds of the reduced result.
\<close>

theorem rank_three_multi_label_raises:
  "multi_label stub_ml_metric \<and>
   ndim (stub_r3_explain stub_x_batch) = 3 \<and>
   stub_ml_y_batch = LabelLists [[0, 1], [2]] \<and>
   evaluate_batch stub_ml_metric stub_r3_collaborators () stub_x_batch stub_ml_y_batch
     (stub_r3_explain stub_x_batch) = Inl BroadcastError \<and>
   ndim (stub_r3_wide_explain stub_x_batch) = 3 \<and>
   evaluate_batch stub_ml_metric stub_r3_wide_collaborators () stub_x_batch stub_ml_y_batch
     (stub_r3_wide_explain stub_x_batch) = Inl IndexError"
  using r3_evaluate r3_wide_evaluate
  by (simp add: stub_ml_metric_def stub_ml_y_batch_def ndim_def stub_r3_explain_def
      stub_r3_wide_explain_def)

end
